theory Spec2Isabelle
  imports Main "HOL-Library.Word"
begin

section \<open>The dnscat2 client front end (client/dnscat.c)\<close>

text \<open>
  The file holds the globals of the client (the select group and one pointer per driver),
  the \<open>atexit\<close> hook \<open>cleanup\<close>, \<open>usage\<close> and \<open>main\<close>. Everything \<open>main\<close> calls in
  other modules (log, message bus, select group, drivers) is observable here only as a
  call, so the model records each call, in order, in a trace.
\<close>

subsection \<open>Types\<close>

type_synonym uint16_t = "16 word"
type_synonym uint32_t = "32 word"

text \<open>\<open>log_level_t\<close> is an enum of log.h; its values are C integers.\<close>

type_synonym log_level_t = int

text \<open>
  What the environment supplies: \<open>argv[0]\<close>, the enum constant \<open>LOG_LEVEL_WARNING\<close>
  (log.h is not part of the sources at hand, so its value is a parameter) and the answer
  of \<open>dns_get_system()\<close>, a string or \<open>NULL\<close>.
\<close>

record env =
  argv0 :: string
  LOG_LEVEL_WARNING :: log_level_t
  dns_get_system :: "string option"

text \<open>
  \<open>getopt_long_only\<close> (libc) is called with an empty short-option string and a table
  whose entries all have \<open>flag = 0\<close> and \<open>val = 0\<close>. Each call therefore yields \<open>0\<close>
  together with the matched table entry and \<open>optarg\<close>, or \<open>'?'\<close>, or \<open>EOF\<close>. A command
  line is modelled by the sequence of results before \<open>EOF\<close> and by the arguments left at
  \<open>argv[optind..]\<close> afterwards.
\<close>

datatype getopt_result =
    Long string string  \<comment> \<open>\<open>c = 0\<close>: \<open>long_options[option_index].name\<close> and \<open>optarg\<close>\<close>
  | Unrecognised  \<comment> \<open>\<open>c = '?'\<close>\<close>

datatype log_arg = ArgS string | ArgD int

datatype effect =
    log_init
  | sessions_init
  | select_group_create
  | srand
  | winsock_initialize
  | log_set_min_console_level log_level_t
  | fprintf_usage string "string option" string
  | driver_console_create
  | driver_command_create
  | driver_exec_create string
  | driver_listener_create string int
  | driver_ping_create
  | driver_dns_create string
  | LOG_WARNING string "log_arg list"
  | LOG_FATAL string "log_arg list"
  | atexit_cleanup
  | message_post_config_string string string
  | message_post_config_int string uint32_t
  | message_post_start
  | select_set_timeout
  | message_post_shutdown
  | message_cleanup
  | select_group_destroy
  | driver_console_destroy
  | driver_command_destroy
  | driver_dns_destroy
  | driver_exec_destroy
  | driver_listener_destroy
  | driver_ping_destroy
  | print_memory

text \<open>
  The fields of \<open>driver_dns_t\<close> that \<open>main\<close> reads or writes. What
  \<open>driver_dns_create\<close> itself stores in \<open>dns_host\<close> and \<open>dns_port\<close> is not visible in
  this file; \<open>main\<close> overwrites both before the driver is used.
\<close>

record driver_dns_t =
  domain :: string
  dns_host :: "string option"
  dns_port :: uint16_t

text \<open>
  The globals (a pointer is modelled by whether it is set, with the fields \<open>main\<close> reads
  where there are any), the locals of \<open>main\<close>, whether \<open>cleanup\<close> has been registered
  with \<open>atexit\<close>, and the calls made so far. The constructors of the drivers and of the
  select group, and \<open>safe_strdup\<close>, live in other modules and are taken to return an
  object, never \<open>NULL\<close>.
\<close>

record main_state =
  group :: bool
  driver_console :: bool
  driver_command :: bool
  driver_exec :: "string option"
  driver_listener :: "int option"
  driver_ping :: bool
  driver_dns :: "driver_dns_t option"
  dns_options_host :: "string option"
  dns_options_port :: uint16_t
  input_set :: bool
  output_set :: bool
  name :: "string option"
  download :: "string option"
  chunk :: uint32_t
  min_log_level :: log_level_t
  atexit_registered :: bool
  trace :: "effect list"

text \<open>
  How the process ends up: it has called \<open>exit\<close> with a code, or it has reached the
  reactor loop \<open>while(TRUE) select_group_do_select(group, 1000)\<close>, which \<open>main\<close> never
  leaves by itself.
\<close>

datatype outcome = Exited int main_state | Reactor main_state

subsection \<open>libc: atoi\<close>

text \<open>
  \<open>atoi(s)\<close> is \<open>(int) strtol(s, NULL, 10)\<close>. \<open>strtol\<close> skips white space, reads an
  optional sign and then decimal digits up to the first other character; a value that does
  not fit a \<open>long\<close> becomes \<open>LONG_MIN\<close> or \<open>LONG_MAX\<close>. A \<open>long\<close> has 64 bits where
  the file is built with \<open>getopt.h\<close> (the \<open>#else\<close> of line 15). The cast to \<open>int\<close>
  keeps the low 32 bits, read as two's complement.
\<close>

definition isspace :: "char \<Rightarrow> bool" where
  "isspace c = (of_char c \<in> {9, 10, 11, 12, 13, 32 :: nat})"

definition isdigit :: "char \<Rightarrow> bool" where
  "isdigit c = (48 \<le> (of_char c :: nat) \<and> (of_char c :: nat) \<le> 57)"

fun digits_value :: "int \<Rightarrow> string \<Rightarrow> int" where
  "digits_value acc [] = acc"
| "digits_value acc (c # cs) =
     (if isdigit c then digits_value (10 * acc + (of_char c - 48)) cs else acc)"

definition LONG_MAX :: int where
  "LONG_MAX = 2 ^ 63 - 1"

definition LONG_MIN :: int where
  "LONG_MIN = - (2 ^ 63)"

definition strtol :: "string \<Rightarrow> int" where
  "strtol s =
     (let v = (case dropWhile isspace s of
                 [] \<Rightarrow> 0
               | c # cs \<Rightarrow>
                   if c = CHR ''-'' then - digits_value 0 cs
                   else if c = CHR ''+'' then digits_value 0 cs
                   else digits_value 0 (c # cs))
      in if v < LONG_MIN then LONG_MIN else if LONG_MAX < v then LONG_MAX else v)"

definition atoi :: "string \<Rightarrow> int" where
  "atoi s = sint (of_int (strtol s) :: 32 word)"

subsection \<open>cleanup, exit and usage\<close>

definition emit :: "effect \<Rightarrow> main_state \<Rightarrow> main_state" where
  "emit e st = st\<lparr>trace := trace st @ [e]\<rparr>"

definition emit_if :: "bool \<Rightarrow> effect \<Rightarrow> main_state \<Rightarrow> main_state" where
  "emit_if b e st = (if b then emit e st else st)"

text \<open>\<open>cleanup\<close>, lines 63 to 87, statement by statement.\<close>

definition cleanup :: "main_state \<Rightarrow> main_state" where
  "cleanup st0 =
     (let st = emit (LOG_WARNING ''Terminating'' []) st0;
          st = emit message_post_shutdown st;
          st = emit message_cleanup st;
          st = emit_if (group st) select_group_destroy st;
          st = emit_if (driver_console st) driver_console_destroy st;
          st = emit_if (driver_command st) driver_command_destroy st;
          st = emit_if (driver_dns st \<noteq> None) driver_dns_destroy st;
          st = emit_if (driver_exec st \<noteq> None) driver_exec_destroy st;
          st = emit_if (driver_listener st \<noteq> None) driver_listener_destroy st;
          st = emit_if (driver_ping st) driver_ping_destroy st
      in emit print_memory st)"

text \<open>\<open>exit\<close> runs the hook registered with \<open>atexit\<close>, if any, and ends the process.\<close>

definition exit_process :: "int \<Rightarrow> main_state \<Rightarrow> outcome" where
  "exit_process code st = Exited code (if atexit_registered st then cleanup st else st)"

text \<open>\<open>usage\<close>, lines 89 to 126: it prints the help text and the message, then \<open>exit(0)\<close>.\<close>

definition usage :: "env \<Rightarrow> string \<Rightarrow> main_state \<Rightarrow> outcome" where
  "usage env message st =
     exit_process 0 (emit (fprintf_usage (argv0 env) (dns_get_system env) message) st)"

subsection \<open>main: the option loop\<close>

definition more_than_one :: string where
  "more_than_one =
     ''More than one of --command, --exec, --stdin, --listen, and --ping can't be set!''"

text \<open>
  The chain of \<open>strcmp\<close> tests of lines 215 to 318, in the order of the source. The name
  \<open>console\<close> is in the option table but in no test, so it ends in the last \<open>else\<close>.
\<close>

datatype option_kind =
    Opt_help | Opt_name | Opt_download | Opt_chunk | Opt_ping | Opt_stdin | Opt_command
  | Opt_exec | Opt_listen | Opt_dns | Opt_dnshost | Opt_dnsport | Opt_d | Opt_q | Opt_else

definition option_kind_of :: "string \<Rightarrow> option_kind" where
  "option_kind_of option_name =
     (if option_name = ''help'' \<or> option_name = ''h'' then Opt_help
      else if option_name = ''name'' \<or> option_name = ''n'' then Opt_name
      else if option_name = ''download'' then Opt_download
      else if option_name = ''chunk'' then Opt_chunk
      else if option_name = ''ping'' then Opt_ping
      else if option_name = ''stdin'' then Opt_stdin
      else if option_name = ''command'' then Opt_command
      else if option_name = ''exec'' \<or> option_name = ''e'' then Opt_exec
      else if option_name = ''listen'' \<or> option_name = ''l'' then Opt_listen
      else if option_name = ''dns'' then Opt_dns
      else if option_name = ''dnshost'' \<or> option_name = ''host'' then Opt_dnshost
      else if option_name = ''dnsport'' \<or> option_name = ''port'' then Opt_dnsport
      else if option_name = ''d'' then Opt_d
      else if option_name = ''q'' then Opt_q
      else Opt_else)"

text \<open>
  The body of each branch. \<open>Inl\<close> is the end of the process (every \<open>usage\<close> call),
  \<open>Inr\<close> the state with which the loop goes on.
\<close>

fun handle_option :: "env \<Rightarrow> option_kind \<Rightarrow> string \<Rightarrow> main_state \<Rightarrow> outcome + main_state" where
  "handle_option env Opt_help optarg st = Inl (usage env ''--help requested'' st)"
| "handle_option env Opt_name optarg st = Inr (st\<lparr>name := Some optarg\<rparr>)"
| "handle_option env Opt_download optarg st = Inr (st\<lparr>download := Some optarg\<rparr>)"
| "handle_option env Opt_chunk optarg st = Inr (st\<lparr>chunk := of_int (atoi optarg)\<rparr>)"
| "handle_option env Opt_ping optarg st =
     (if input_set st then Inl (usage env more_than_one st)
      else
        let st = st\<lparr>input_set := True\<rparr>;
            st = (emit driver_ping_create st)\<lparr>driver_ping := True\<rparr>;
            st = st\<lparr>min_log_level := min_log_level st + 1\<rparr>
        in Inr (emit (log_set_min_console_level (min_log_level st)) st))"
| "handle_option env Opt_stdin optarg st =
     (if input_set st then Inl (usage env more_than_one st)
      else
        let st = st\<lparr>input_set := True\<rparr>
        in Inr ((emit driver_console_create st)\<lparr>driver_console := True\<rparr>))"
| "handle_option env Opt_command optarg st =
     (if input_set st then Inl (usage env more_than_one st)
      else
        let st = st\<lparr>input_set := True\<rparr>
        in Inr ((emit driver_command_create st)\<lparr>driver_command := True\<rparr>))"
| "handle_option env Opt_exec optarg st =
     (if input_set st then Inl (usage env more_than_one st)
      else
        let st = st\<lparr>input_set := True\<rparr>
        in Inr ((emit (driver_exec_create optarg) st)\<lparr>driver_exec := Some optarg\<rparr>))"
| "handle_option env Opt_listen optarg st =
     (if input_set st then Inl (usage env more_than_one st)
      else
        let st = st\<lparr>input_set := True\<rparr>
        in Inr ((emit (driver_listener_create ''0.0.0.0'' (atoi optarg)) st)
                  \<lparr>driver_listener := Some (atoi optarg)\<rparr>))"
| "handle_option env Opt_dns optarg st =
     (if output_set st then Inl (usage env more_than_one st)
      else
        let st = st\<lparr>output_set := True\<rparr>
        in Inr ((emit (driver_dns_create optarg) st)
                  \<lparr>driver_dns := Some \<lparr>domain = optarg, dns_host = None, dns_port = 0\<rparr>\<rparr>))"
| "handle_option env Opt_dnshost optarg st = Inr (st\<lparr>dns_options_host := Some optarg\<rparr>)"
| "handle_option env Opt_dnsport optarg st =
     Inr (st\<lparr>dns_options_port := of_int (atoi optarg)\<rparr>)"
| "handle_option env Opt_d optarg st =
     (if min_log_level st > 0 then
        let st = st\<lparr>min_log_level := min_log_level st - 1\<rparr>
        in Inr (emit (log_set_min_console_level (min_log_level st)) st)
      else Inr st)"
| "handle_option env Opt_q optarg st =
     Inr (emit (log_set_min_console_level (min_log_level st)) st)"
| "handle_option env Opt_else optarg st = Inl (usage env ''Unknown option'' st)"

text \<open>The \<open>while\<close> loop of lines 207 to 326: one iteration for each result of getopt.\<close>

fun getopt_loop :: "env \<Rightarrow> getopt_result list \<Rightarrow> main_state \<Rightarrow> outcome + main_state" where
  "getopt_loop env [] st = Inr st"
| "getopt_loop env (Unrecognised # rest) st = getopt_loop env rest st"
| "getopt_loop env (Long option_name optarg # rest) st =
     (case handle_option env (option_kind_of option_name) optarg st of
        Inl out \<Rightarrow> Inl out
      | Inr st' \<Rightarrow> getopt_loop env rest st')"

subsection \<open>main: before and after the loop\<close>

text \<open>Lines 181 to 203: the initial values and the module initialisation.\<close>

definition initial_state :: "env \<Rightarrow> main_state" where
  "initial_state env =
     \<lparr>group = True, driver_console = False, driver_command = False, driver_exec = None,
      driver_listener = None, driver_ping = False, driver_dns = None,
      dns_options_host = None, dns_options_port = 53,
      input_set = False, output_set = False,
      name = None, download = None, chunk = - 1,
      min_log_level = LOG_LEVEL_WARNING env,
      atexit_registered = False,
      trace = [log_init, sessions_init, select_group_create, srand, winsock_initialize,
               log_set_min_console_level (LOG_LEVEL_WARNING env)]\<rparr>"

text \<open>Lines 328 to 330.\<close>

definition default_input :: "main_state \<Rightarrow> main_state" where
  "default_input st =
     (if \<not> input_set st then (emit driver_console_create st)\<lparr>driver_console := True\<rparr>
      else st)"

text \<open>
  Lines 332 to 343; \<open>rest\<close> is \<open>argv[optind..]\<close>. The \<open>exit(1)\<close> of line 340 follows a
  call of \<open>usage\<close>, which does not return.
\<close>

definition default_output :: "env \<Rightarrow> string list \<Rightarrow> main_state \<Rightarrow> outcome + main_state" where
  "default_output env rest st =
     (if \<not> output_set st then
        (case rest of
           [] \<Rightarrow> Inl (usage env
             ''Please provide a domain (either with --dns or at the end of the commandline)'' st)
         | d # _ \<Rightarrow>
             Inr ((emit (driver_dns_create d) st)
                    \<lparr>driver_dns := Some \<lparr>domain = d, dns_host = None, dns_port = 0\<rparr>\<rparr>))
      else Inr st)"

text \<open>Lines 345 to 349.\<close>

definition check_chunk :: "main_state \<Rightarrow> outcome + main_state" where
  "check_chunk st =
     (if chunk st \<noteq> - 1 \<and> download st = None then
        Inl (exit_process 1 (emit (LOG_FATAL ''--chunk can only be used with --download'' []) st))
      else Inr st)"

text \<open>Lines 351 to 375.\<close>

definition report_input :: "main_state \<Rightarrow> outcome + main_state" where
  "report_input st =
     (if driver_console st then Inr (emit (LOG_WARNING ''INPUT: Console'' []) st)
      else if driver_command st then Inr (emit (LOG_WARNING ''INPUT: Command'' []) st)
      else
        (case driver_listener st of
           Some port \<Rightarrow>
             Inr (emit (LOG_WARNING ''INPUT: Listening on port %d'' [ArgD port]) st)
         | None \<Rightarrow>
             (case driver_exec st of
                Some process \<Rightarrow>
                  Inr (emit (LOG_WARNING ''INPUT: Executing %s'' [ArgS process]) st)
              | None \<Rightarrow>
                  if driver_ping st then Inr (emit (LOG_WARNING ''INPUT: ping'' []) st)
                  else
                    Inl (exit_process 1
                      (emit (LOG_FATAL ''INPUT: Ended up with an unknown input driver!'' [])
                         st)))))"

text \<open>Lines 377 to 398.\<close>

definition configure_output :: "env \<Rightarrow> main_state \<Rightarrow> outcome + main_state" where
  "configure_output env st =
     (case driver_dns st of
        Some drv \<Rightarrow>
          let drv = drv\<lparr>dns_host :=
                (case dns_options_host st of
                   None \<Rightarrow> dns_get_system env
                 | Some h \<Rightarrow> Some h)\<rparr>
          in if dns_host drv = None then
               let st = st\<lparr>driver_dns := Some drv\<rparr>;
                   st = emit (LOG_FATAL
                     ''Couldn't determine the system DNS server! Please use --host to set one.''
                     []) st;
                   st = emit (LOG_FATAL
                     ''You can also create a proper /etc/resolv.conf file to fix this'' []) st
               in Inl (exit_process 1 st)
             else
               let drv = drv\<lparr>dns_port := dns_options_port st\<rparr>;
                   st = st\<lparr>driver_dns := Some drv\<rparr>
               in Inr (emit (LOG_WARNING ''OUTPUT: DNS tunnel to %s'' [ArgS (domain drv)]) st)
      | None \<Rightarrow>
          Inl (exit_process 1
                 (emit (LOG_FATAL ''OUTPUT: Ended up with an unknown output driver!'' []) st)))"

text \<open>Lines 400 to 417, up to the entry of the reactor loop.\<close>

definition start :: "main_state \<Rightarrow> outcome" where
  "start st0 =
     (let st = (emit atexit_cleanup st0)\<lparr>atexit_registered := True\<rparr>;
          st = (case name st of
                  None \<Rightarrow> st
                | Some n \<Rightarrow> emit (message_post_config_string ''name'' n) st);
          st = (case download st of
                  None \<Rightarrow> st
                | Some d \<Rightarrow> emit (message_post_config_string ''download'' d) st);
          st = (if chunk st \<noteq> 0xFFFFFFFF then emit (message_post_config_int ''chunk'' (chunk st)) st
                else st);
          st = emit message_post_start st;
          st = emit select_set_timeout st
      in Reactor st)"

definition and_then :: "outcome + main_state \<Rightarrow> (main_state \<Rightarrow> outcome + main_state)
    \<Rightarrow> outcome + main_state" where
  "and_then r f = (case r of Inl out \<Rightarrow> Inl out | Inr st \<Rightarrow> f st)"

text \<open>The checks between the loop and \<open>atexit\<close>, in the order of the source.\<close>

definition after_loop :: "env \<Rightarrow> string list \<Rightarrow> main_state \<Rightarrow> outcome + main_state" where
  "after_loop env rest st =
     and_then (and_then (and_then (default_output env rest (default_input st))
       check_chunk) report_input) (configure_output env)"

definition main :: "env \<Rightarrow> getopt_result list \<Rightarrow> string list \<Rightarrow> outcome" where
  "main env opts rest =
     (case and_then (getopt_loop env opts (initial_state env)) (after_loop env rest) of
        Inl out \<Rightarrow> out
      | Inr st \<Rightarrow> start st)"


section \<open>Vocabulary for the properties\<close>

text \<open>
  Nothing below changes the model: these definitions read a command line (which options
  were given, with which arguments), read an outcome, classify the recorded calls, and
  name the invariants of the proofs.
\<close>

subsection \<open>Reading a command line\<close>

text \<open>
  The options of a command line in the order getopt delivers them, each with the branch of
  the \<open>strcmp\<close> chain it takes and its argument; results \<open>'?'\<close> carry nothing.
\<close>

fun options_of :: "getopt_result list \<Rightarrow> (option_kind \<times> string) list" where
  "options_of [] = []"
| "options_of (Unrecognised # rest) = options_of rest"
| "options_of (Long option_name optarg # rest) =
     (option_kind_of option_name, optarg) # options_of rest"

definition kinds :: "getopt_result list \<Rightarrow> option_kind list" where
  "kinds opts = map fst (options_of opts)"

definition args_of :: "option_kind \<Rightarrow> getopt_result list \<Rightarrow> string list" where
  "args_of k opts = map snd (filter (\<lambda>p. fst p = k) (options_of opts))"

text \<open>
  The argument of the last occurrence of an option: later assignments to \<open>name\<close>,
  \<open>download\<close>, \<open>chunk\<close> and \<open>dns_options.host\<close> overwrite earlier ones.
\<close>

definition last_arg :: "option_kind \<Rightarrow> getopt_result list \<Rightarrow> string option" where
  "last_arg k opts = (case rev (args_of k opts) of [] \<Rightarrow> None | a # _ \<Rightarrow> Some a)"

text \<open>
  The options that ask for an input driver (\<open>--ping\<close>, \<open>--stdin\<close>, \<open>--command\<close>,
  \<open>--exec\<close>, \<open>--listen\<close>) and for an output driver (\<open>--dns\<close>), counted with
  repetitions.
\<close>

definition is_input_kind :: "option_kind \<Rightarrow> bool" where
  "is_input_kind k = (k \<in> {Opt_ping, Opt_stdin, Opt_command, Opt_exec, Opt_listen})"

definition input_requests :: "getopt_result list \<Rightarrow> nat" where
  "input_requests opts = length (filter is_input_kind (kinds opts))"

definition output_requests :: "getopt_result list \<Rightarrow> nat" where
  "output_requests opts = length (filter (\<lambda>k. k = Opt_dns) (kinds opts))"

fun is_chunk :: "getopt_result \<Rightarrow> bool" where
  "is_chunk (Long option_name optarg) = (option_kind_of option_name = Opt_chunk)"
| "is_chunk Unrecognised = False"

text \<open>
  What a command line asks for: the chunk number as \<open>main\<close> stores it (\<open>- 1\<close>, that is
  \<open>0xFFFFFFFF\<close>, when there is no \<open>--chunk\<close>), the resolver address (the last
  \<open>--host\<close> or \<open>--dnshost\<close>, else the system resolver) and the tunnel domain (the
  \<open>--dns\<close> argument, else the first trailing argument).
\<close>

definition requested_chunk :: "getopt_result list \<Rightarrow> uint32_t" where
  "requested_chunk opts =
     (case last_arg Opt_chunk opts of None \<Rightarrow> - 1 | Some a \<Rightarrow> of_int (atoi a))"

definition resolver :: "env \<Rightarrow> getopt_result list \<Rightarrow> string option" where
  "resolver env opts =
     (case last_arg Opt_dnshost opts of None \<Rightarrow> dns_get_system env | Some h \<Rightarrow> Some h)"

definition tunnel_domain :: "getopt_result list \<Rightarrow> string list \<Rightarrow> string option" where
  "tunnel_domain opts rest =
     (case last_arg Opt_dns opts of
        Some d \<Rightarrow> Some d
      | None \<Rightarrow> (case rest of [] \<Rightarrow> None | d # _ \<Rightarrow> Some d))"

text \<open>
  A command line passes the option loop when it has no \<open>--help\<close>, no option that ends
  in the last \<open>else\<close>, at most one input option and at most one \<open>--dns\<close>; it passes
  the chunk check when the chunk number is still \<open>0xFFFFFFFF\<close> or \<open>--download\<close>
  is given.
\<close>

definition options_accepted :: "getopt_result list \<Rightarrow> bool" where
  "options_accepted opts \<longleftrightarrow>
     Opt_help \<notin> set (kinds opts) \<and> Opt_else \<notin> set (kinds opts)
     \<and> input_requests opts \<le> 1 \<and> output_requests opts \<le> 1"

definition chunk_accepted :: "getopt_result list \<Rightarrow> bool" where
  "chunk_accepted opts \<longleftrightarrow> requested_chunk opts = - 1 \<or> Opt_download \<in> set (kinds opts)"

definition cmdline_accepted :: "getopt_result list \<Rightarrow> string list \<Rightarrow> bool" where
  "cmdline_accepted opts rest \<longleftrightarrow>
     options_accepted opts \<and> tunnel_domain opts rest \<noteq> None \<and> chunk_accepted opts"

subsection \<open>Reading an outcome\<close>

fun final_state :: "outcome \<Rightarrow> main_state" where
  "final_state (Exited code st) = st"
| "final_state (Reactor st) = st"

fun exit_code :: "outcome \<Rightarrow> int option" where
  "exit_code (Exited code st) = Some code"
| "exit_code (Reactor st) = None"

fun is_reactor :: "outcome \<Rightarrow> bool" where
  "is_reactor (Reactor st) = True"
| "is_reactor (Exited code st) = False"

definition final_log_level :: "outcome \<Rightarrow> log_level_t" where
  "final_log_level out = min_log_level (final_state out)"

text \<open>
  The number of input-driver globals that are set, and the calls that \<open>cleanup\<close> adds
  to the trace when it runs in a given state.
\<close>

definition input_drivers :: "main_state \<Rightarrow> nat" where
  "input_drivers st =
     of_bool (driver_console st) + of_bool (driver_command st) + of_bool (driver_exec st \<noteq> None)
     + of_bool (driver_listener st \<noteq> None) + of_bool (driver_ping st)"

definition cleanup_calls :: "main_state \<Rightarrow> effect list" where
  "cleanup_calls st = drop (length (trace st)) (trace (cleanup st))"

text \<open>
  \<open>occurs_before a b es\<close>: the call \<open>a\<close> occurs in \<open>es\<close> and \<open>b\<close> occurs after its
  first occurrence.
\<close>

fun occurs_before :: "effect \<Rightarrow> effect \<Rightarrow> effect list \<Rightarrow> bool" where
  "occurs_before a b [] = False"
| "occurs_before a b (e # es) = (if e = a then b \<in> set es else occurs_before a b es)"

subsection \<open>Classes of calls\<close>

text \<open>
  The calls that the source makes from line 401 on only: the registration with
  \<open>atexit\<close>, the posts on the message bus, \<open>select_set_timeout\<close> and the calls of
  \<open>cleanup\<close> other than its log line.
\<close>

fun late_effect :: "effect \<Rightarrow> bool" where
  "late_effect atexit_cleanup = True"
| "late_effect (message_post_config_string k v) = True"
| "late_effect (message_post_config_int k v) = True"
| "late_effect message_post_start = True"
| "late_effect select_set_timeout = True"
| "late_effect message_post_shutdown = True"
| "late_effect message_cleanup = True"
| "late_effect select_group_destroy = True"
| "late_effect driver_console_destroy = True"
| "late_effect driver_command_destroy = True"
| "late_effect driver_dns_destroy = True"
| "late_effect driver_exec_destroy = True"
| "late_effect driver_listener_destroy = True"
| "late_effect driver_ping_destroy = True"
| "late_effect print_memory = True"
| "late_effect e = False"

fun input_create :: "effect \<Rightarrow> bool" where
  "input_create driver_console_create = True"
| "input_create driver_command_create = True"
| "input_create (driver_exec_create p) = True"
| "input_create (driver_listener_create h p) = True"
| "input_create driver_ping_create = True"
| "input_create e = False"

fun output_create :: "effect \<Rightarrow> bool" where
  "output_create (driver_dns_create d) = True"
| "output_create e = False"

fun bus_post :: "effect \<Rightarrow> bool" where
  "bus_post (message_post_config_string k v) = True"
| "bus_post (message_post_config_int k v) = True"
| "bus_post message_post_start = True"
| "bus_post message_post_shutdown = True"
| "bus_post e = False"

fun config_int_post :: "effect \<Rightarrow> bool" where
  "config_int_post (message_post_config_int k v) = True"
| "config_int_post e = False"

fun level_call :: "effect \<Rightarrow> bool" where
  "level_call (log_set_min_console_level l) = True"
| "level_call e = False"

fun level_nonneg :: "effect \<Rightarrow> bool" where
  "level_nonneg (log_set_min_console_level l) = (0 \<le> l)"
| "level_nonneg e = True"

text \<open>
  The configuration posts of lines 404 to 409 for given values of \<open>name\<close>,
  \<open>download\<close> and \<open>chunk\<close>.
\<close>

definition config_posts :: "string option \<Rightarrow> string option \<Rightarrow> uint32_t \<Rightarrow> effect list" where
  "config_posts n d c =
     (case n of None \<Rightarrow> [] | Some v \<Rightarrow> [message_post_config_string ''name'' v])
     @ (case d of None \<Rightarrow> [] | Some v \<Rightarrow> [message_post_config_string ''download'' v])
     @ (if c \<noteq> 0xFFFFFFFF then [message_post_config_int ''chunk'' c] else [])"

subsection \<open>Two environments for concrete runs\<close>

definition example_env :: env where
  "example_env = \<lparr>argv0 = ''dnscat'', LOG_LEVEL_WARNING = 1, dns_get_system = Some ''8.8.8.8''\<rparr>"

definition no_resolver_env :: env where
  "no_resolver_env = \<lparr>argv0 = ''dnscat'', LOG_LEVEL_WARNING = 1, dns_get_system = None\<rparr>"

subsection \<open>Invariants and summaries of the proofs\<close>

text \<open>
  \<open>startup_inv\<close> holds throughout the option loop, \<open>attached_inv\<close> from the creation of
  the DNS driver up to \<open>atexit\<close>; \<open>startup_exit\<close> describes every exit before \<open>atexit\<close>.
\<close>

definition no_input_driver :: "main_state \<Rightarrow> bool" where
  "no_input_driver st \<longleftrightarrow>
     \<not> driver_console st \<and> \<not> driver_command st \<and> driver_exec st = None
     \<and> driver_listener st = None \<and> \<not> driver_ping st"

definition startup_inv :: "main_state \<Rightarrow> bool" where
  "startup_inv st \<longleftrightarrow>
     group st \<and> \<not> atexit_registered st
     \<and> (if input_set st then input_drivers st = 1 else no_input_driver st)
     \<and> length (filter input_create (trace st)) = of_bool (input_set st)
     \<and> (output_set st \<longleftrightarrow> driver_dns st \<noteq> None)
     \<and> length (filter output_create (trace st)) = of_bool (output_set st)
     \<and> filter late_effect (trace st) = []"

definition attached_inv :: "main_state \<Rightarrow> bool" where
  "attached_inv st \<longleftrightarrow>
     group st \<and> \<not> atexit_registered st
     \<and> input_drivers st = 1
     \<and> length (filter input_create (trace st)) = 1
     \<and> driver_dns st \<noteq> None
     \<and> length (filter output_create (trace st)) = 1
     \<and> filter late_effect (trace st) = []"

definition startup_exit :: "outcome \<Rightarrow> bool" where
  "startup_exit out \<longleftrightarrow>
     (case out of
        Exited code st \<Rightarrow>
          (code = 0 \<or> code = 1) \<and> \<not> atexit_registered st \<and> filter late_effect (trace st) = []
      | Reactor st \<Rightarrow> False)"

definition exit_with :: "int \<Rightarrow> outcome \<Rightarrow> bool" where
  "exit_with code out \<longleftrightarrow> startup_exit out \<and> exit_code out = Some code"

text \<open>
  \<open>both P Q r\<close>: a step that ended the process satisfies \<open>P\<close>, one that went on
  satisfies \<open>Q\<close>.
\<close>

definition both :: "(outcome \<Rightarrow> bool) \<Rightarrow> (main_state \<Rightarrow> bool) \<Rightarrow> outcome + main_state \<Rightarrow> bool" where
  "both P Q r = (case r of Inl out \<Rightarrow> P out | Inr st \<Rightarrow> Q st)"

text \<open>
  What the steps after the option loop leave unchanged, and the conditions they test.
\<close>

definition carried :: "main_state \<Rightarrow> main_state \<Rightarrow> bool" where
  "carried st st' \<longleftrightarrow>
     name st' = name st \<and> download st' = download st \<and> chunk st' = chunk st
     \<and> dns_options_host st' = dns_options_host st \<and> dns_options_port st' = dns_options_port st
     \<and> input_set st' = input_set st \<and> output_set st' = output_set st
     \<and> driver_command st' = driver_command st \<and> driver_exec st' = driver_exec st
     \<and> driver_listener st' = driver_listener st \<and> driver_ping st' = driver_ping st"

definition resolver_of :: "env \<Rightarrow> main_state \<Rightarrow> string option" where
  "resolver_of env st =
     (case dns_options_host st of None \<Rightarrow> dns_get_system env | Some h \<Rightarrow> Some h)"

definition domain_available :: "string list \<Rightarrow> main_state \<Rightarrow> bool" where
  "domain_available rest st \<longleftrightarrow> output_set st \<or> rest \<noteq> []"

definition chunk_allowed :: "main_state \<Rightarrow> bool" where
  "chunk_allowed st \<longleftrightarrow> chunk st = - 1 \<or> download st \<noteq> None"

definition after_loop_exit :: "env \<Rightarrow> string list \<Rightarrow> main_state \<Rightarrow> outcome \<Rightarrow> bool" where
  "after_loop_exit env rest st out \<longleftrightarrow>
     (if \<not> domain_available rest st then exit_with 0 out
      else exit_with 1 out \<and> (\<not> chunk_allowed st \<or> resolver_of env st = None))"

definition after_loop_done :: "env \<Rightarrow> string list \<Rightarrow> main_state \<Rightarrow> main_state \<Rightarrow> bool" where
  "after_loop_done env rest st st' \<longleftrightarrow>
     attached_inv st' \<and> domain_available rest st \<and> chunk_allowed st
     \<and> resolver_of env st \<noteq> None \<and> carried st st'
     \<and> driver_console st' = (driver_console st \<or> \<not> input_set st)
     \<and> (\<exists>drv. (if output_set st then driver_dns st = Some drv
                else drv = \<lparr>domain = hd rest, dns_host = None, dns_port = 0\<rparr>)
          \<and> driver_dns st' = Some (drv\<lparr>dns_host := resolver_of env st,
                dns_port := dns_options_port st\<rparr>))"

definition started :: "main_state \<Rightarrow> main_state \<Rightarrow> bool" where
  "started st st' \<longleftrightarrow>
     atexit_registered st' \<and> group st' = group st \<and> input_drivers st' = input_drivers st
     \<and> carried st st' \<and> driver_console st' = driver_console st \<and> driver_dns st' = driver_dns st
     \<and> trace st' = trace st @ [atexit_cleanup] @ config_posts (name st) (download st) (chunk st)
           @ [message_post_start, select_set_timeout]"

text \<open>
  What one iteration and the whole option loop do to the state when they do not end the
  process.
\<close>

definition loop_accepts :: "main_state \<Rightarrow> getopt_result list \<Rightarrow> bool" where
  "loop_accepts st opts \<longleftrightarrow>
     Opt_help \<notin> set (kinds opts) \<and> Opt_else \<notin> set (kinds opts)
     \<and> (if input_set st then input_requests opts = 0 else input_requests opts \<le> 1)
     \<and> (if output_set st then output_requests opts = 0 else output_requests opts \<le> 1)"

definition step_done :: "option_kind \<Rightarrow> string \<Rightarrow> main_state \<Rightarrow> main_state \<Rightarrow> bool" where
  "step_done k a st st' \<longleftrightarrow>
     k \<noteq> Opt_help \<and> k \<noteq> Opt_else \<and> (is_input_kind k \<longrightarrow> \<not> input_set st)
     \<and> (k = Opt_dns \<longrightarrow> \<not> output_set st)
     \<and> input_set st' = (input_set st \<or> is_input_kind k)
     \<and> output_set st' = (output_set st \<or> k = Opt_dns)
     \<and> name st' = (if k = Opt_name then Some a else name st)
     \<and> download st' = (if k = Opt_download then Some a else download st)
     \<and> chunk st' = (if k = Opt_chunk then of_int (atoi a) else chunk st)
     \<and> dns_options_host st' = (if k = Opt_dnshost then Some a else dns_options_host st)
     \<and> driver_dns st' = (if k = Opt_dns
          then Some \<lparr>domain = a, dns_host = None, dns_port = 0\<rparr> else driver_dns st)
     \<and> driver_console st' = (driver_console st \<or> k = Opt_stdin)
     \<and> driver_command st' = (driver_command st \<or> k = Opt_command)
     \<and> driver_ping st' = (driver_ping st \<or> k = Opt_ping)
     \<and> (driver_exec st' \<noteq> None) = (driver_exec st \<noteq> None \<or> k = Opt_exec)
     \<and> (driver_listener st' \<noteq> None) = (driver_listener st \<noteq> None \<or> k = Opt_listen)"

definition pick :: "option_kind \<Rightarrow> getopt_result list \<Rightarrow> string option \<Rightarrow> string option" where
  "pick k opts old = (case last_arg k opts of None \<Rightarrow> old | Some a \<Rightarrow> Some a)"

definition loop_done :: "getopt_result list \<Rightarrow> main_state \<Rightarrow> main_state \<Rightarrow> bool" where
  "loop_done opts st st' \<longleftrightarrow>
     loop_accepts st opts
     \<and> input_set st' = (input_set st \<or> input_requests opts \<noteq> 0)
     \<and> output_set st' = (output_set st \<or> output_requests opts \<noteq> 0)
     \<and> name st' = pick Opt_name opts (name st)
     \<and> download st' = pick Opt_download opts (download st)
     \<and> chunk st' = (case last_arg Opt_chunk opts of None \<Rightarrow> chunk st | Some a \<Rightarrow> of_int (atoi a))
     \<and> dns_options_host st' = pick Opt_dnshost opts (dns_options_host st)
     \<and> driver_dns st' = (case last_arg Opt_dns opts of None \<Rightarrow> driver_dns st
          | Some d \<Rightarrow> Some \<lparr>domain = d, dns_host = None, dns_port = 0\<rparr>)
     \<and> driver_console st' = (driver_console st \<or> Opt_stdin \<in> set (kinds opts))
     \<and> driver_command st' = (driver_command st \<or> Opt_command \<in> set (kinds opts))
     \<and> driver_ping st' = (driver_ping st \<or> Opt_ping \<in> set (kinds opts))
     \<and> (driver_exec st' \<noteq> None) = (driver_exec st \<noteq> None \<or> Opt_exec \<in> set (kinds opts))
     \<and> (driver_listener st' \<noteq> None)
         = (driver_listener st \<noteq> None \<or> Opt_listen \<in> set (kinds opts))"

text \<open>
  The summary of \<open>main\<close> in terms of the command line.
\<close>

definition reactor_state :: "env \<Rightarrow> getopt_result list \<Rightarrow> string list \<Rightarrow> main_state \<Rightarrow> bool" where
  "reactor_state env opts rest st \<longleftrightarrow>
     atexit_registered st \<and> group st \<and> input_drivers st = 1
     \<and> driver_console st = (Opt_stdin \<in> set (kinds opts) \<or> input_requests opts = 0)
     \<and> driver_command st = (Opt_command \<in> set (kinds opts))
     \<and> driver_ping st = (Opt_ping \<in> set (kinds opts))
     \<and> (driver_exec st \<noteq> None) = (Opt_exec \<in> set (kinds opts))
     \<and> (driver_listener st \<noteq> None) = (Opt_listen \<in> set (kinds opts))
     \<and> (\<exists>drv. driver_dns st = Some drv \<and> Some (domain drv) = tunnel_domain opts rest
          \<and> dns_host drv = resolver env opts)
     \<and> length (filter input_create (trace st)) = 1
     \<and> length (filter output_create (trace st)) = 1
     \<and> filter late_effect (trace st) =
         atexit_cleanup # config_posts (last_arg Opt_name opts) (last_arg Opt_download opts)
           (requested_chunk opts) @ [message_post_start, select_set_timeout]"

definition main_post :: "env \<Rightarrow> getopt_result list \<Rightarrow> string list \<Rightarrow> outcome \<Rightarrow> bool" where
  "main_post env opts rest out \<longleftrightarrow>
     (case out of
        Exited code st \<Rightarrow>
          startup_exit out
          \<and> \<not> (cmdline_accepted opts rest \<and> resolver env opts \<noteq> None)
          \<and> code = (if options_accepted opts \<and> tunnel_domain opts rest \<noteq> None then 1 else 0)
      | Reactor st \<Rightarrow>
          cmdline_accepted opts rest \<and> resolver env opts \<noteq> None
          \<and> reactor_state env opts rest st)"

text \<open>
  The log level and the calls of \<open>log_set_min_console_level\<close>.
\<close>

definition same_levels :: "main_state \<Rightarrow> main_state \<Rightarrow> bool" where
  "same_levels st st' \<longleftrightarrow>
     min_log_level st' = min_log_level st
     \<and> filter level_call (trace st') = filter level_call (trace st)"

definition nonneg_levels :: "main_state \<Rightarrow> bool" where
  "nonneg_levels st \<longleftrightarrow> 0 \<le> min_log_level st \<and> list_all level_nonneg (trace st)"

section \<open>Lemmas\<close>

subsection \<open>atoi at and beyond the range of int\<close>

text \<open>
  Within the range of \<open>int\<close> the value is the number written; \<open>2147483648\<close> wraps to
  the least \<open>int\<close>; a number beyond \<open>long\<close> saturates first, so that twenty nines give
  \<open>(int) LONG_MAX\<close>, which is \<open>- 1\<close>, and a number below \<open>LONG_MIN\<close> gives 0.
\<close>

lemma atoi_examples:
  "atoi ''4444'' = 4444" "atoi ''  -12x'' = - 12" "atoi ''+7'' = 7" "atoi ''x'' = 0"
  "atoi ''2147483647'' = 2147483647" "atoi ''2147483648'' = - 2147483648"
  "atoi ''4294967295'' = - 1" "atoi ''99999999999999999999'' = - 1"
  "atoi ''-18446744073709551617'' = 0"
  by code_simp+

lemma atoi_range: "- (2 ^ 31) \<le> atoi s \<and> atoi s < 2 ^ 31"
proof -
  have "- (2 ^ (LENGTH(32) - 1)) \<le> sint (of_int (strtol s) :: 32 word)"
    by (rule sint_ge)
  moreover have "sint (of_int (strtol s) :: 32 word) < 2 ^ (LENGTH(32) - 1)"
    by (rule sint_lt)
  ultimately show ?thesis by (simp add: atoi_def)
qed

text \<open>
  The chunk number of \<open>main\<close> at such arguments: twenty nines leave it at
  \<open>0xFFFFFFFF\<close>, so that startup succeeds without \<open>--download\<close> and nothing is posted
  for it; a number below \<open>LONG_MIN\<close> makes it 0, which without \<open>--download\<close> ends the
  process with exit code 1.
\<close>

lemma chunk_out_of_range:
  "is_reactor (main example_env [Long ''chunk'' ''99999999999999999999''] [''example.org''])"
  "filter config_int_post (trace (final_state (main example_env
     [Long ''download'' ''f'', Long ''chunk'' ''99999999999999999999''] [''example.org'']))) = []"
  "exit_code (main example_env [Long ''chunk'' ''-18446744073709551617''] [''example.org''])
     = Some 1"
  by code_simp+

subsection \<open>The trace and the driver globals under updates\<close>

lemma emit_fields [simp]:
  "trace (emit e st) = trace st @ [e]"
  "group (emit e st) = group st"
  "driver_console (emit e st) = driver_console st"
  "driver_command (emit e st) = driver_command st"
  "driver_exec (emit e st) = driver_exec st"
  "driver_listener (emit e st) = driver_listener st"
  "driver_ping (emit e st) = driver_ping st"
  "driver_dns (emit e st) = driver_dns st"
  "dns_options_host (emit e st) = dns_options_host st"
  "dns_options_port (emit e st) = dns_options_port st"
  "input_set (emit e st) = input_set st"
  "output_set (emit e st) = output_set st"
  "name (emit e st) = name st"
  "download (emit e st) = download st"
  "chunk (emit e st) = chunk st"
  "min_log_level (emit e st) = min_log_level st"
  "atexit_registered (emit e st) = atexit_registered st"
  by (simp_all add: emit_def)

lemma emit_if_fields [simp]:
  "trace (emit_if b e st) = trace st @ (if b then [e] else [])"
  "group (emit_if b e st) = group st"
  "driver_console (emit_if b e st) = driver_console st"
  "driver_command (emit_if b e st) = driver_command st"
  "driver_exec (emit_if b e st) = driver_exec st"
  "driver_listener (emit_if b e st) = driver_listener st"
  "driver_ping (emit_if b e st) = driver_ping st"
  "driver_dns (emit_if b e st) = driver_dns st"
  "min_log_level (emit_if b e st) = min_log_level st"
  by (simp_all add: emit_if_def)

lemma input_drivers_kept [simp]:
  "input_drivers (emit e st) = input_drivers st"
  "input_drivers (st\<lparr>name := n\<rparr>) = input_drivers st"
  "input_drivers (st\<lparr>download := n\<rparr>) = input_drivers st"
  "input_drivers (st\<lparr>chunk := c\<rparr>) = input_drivers st"
  "input_drivers (st\<lparr>dns_options_host := n\<rparr>) = input_drivers st"
  "input_drivers (st\<lparr>dns_options_port := p\<rparr>) = input_drivers st"
  "input_drivers (st\<lparr>min_log_level := l\<rparr>) = input_drivers st"
  "input_drivers (st\<lparr>input_set := b\<rparr>) = input_drivers st"
  "input_drivers (st\<lparr>output_set := b\<rparr>) = input_drivers st"
  "input_drivers (st\<lparr>driver_dns := d\<rparr>) = input_drivers st"
  "input_drivers (st\<lparr>atexit_registered := b\<rparr>) = input_drivers st"
  by (simp_all add: input_drivers_def)

lemma no_input_driver_kept [simp]:
  "no_input_driver (emit e st) = no_input_driver st"
  "no_input_driver (st\<lparr>name := n\<rparr>) = no_input_driver st"
  "no_input_driver (st\<lparr>download := n\<rparr>) = no_input_driver st"
  "no_input_driver (st\<lparr>chunk := c\<rparr>) = no_input_driver st"
  "no_input_driver (st\<lparr>dns_options_host := n\<rparr>) = no_input_driver st"
  "no_input_driver (st\<lparr>dns_options_port := p\<rparr>) = no_input_driver st"
  "no_input_driver (st\<lparr>min_log_level := l\<rparr>) = no_input_driver st"
  "no_input_driver (st\<lparr>input_set := b\<rparr>) = no_input_driver st"
  "no_input_driver (st\<lparr>output_set := b\<rparr>) = no_input_driver st"
  "no_input_driver (st\<lparr>driver_dns := d\<rparr>) = no_input_driver st"
  by (simp_all add: no_input_driver_def)

lemma first_input_driver [simp]:
  assumes "no_input_driver st"
  shows "input_drivers (st\<lparr>driver_console := True\<rparr>) = 1"
    and "input_drivers (st\<lparr>driver_command := True\<rparr>) = 1"
    and "input_drivers (st\<lparr>driver_exec := Some p\<rparr>) = 1"
    and "input_drivers (st\<lparr>driver_listener := Some q\<rparr>) = 1"
    and "input_drivers (st\<lparr>driver_ping := True\<rparr>) = 1"
  using assms by (simp_all add: no_input_driver_def input_drivers_def)

lemma some_input_driver:
  assumes "input_drivers st = 1"
  shows "driver_console st \<or> driver_command st \<or> driver_listener st \<noteq> None
         \<or> driver_exec st \<noteq> None \<or> driver_ping st"
proof (rule ccontr)
  assume "\<not> ?thesis"
  then have "input_drivers st = 0" by (simp add: input_drivers_def)
  with assms show False by simp
qed

subsection \<open>Steps that end the process or go on\<close>

lemma both_simps [simp]: "both P Q (Inl out) = P out" "both P Q (Inr st) = Q st"
  by (simp_all add: both_def)

lemma both_and_then:
  assumes "both P Q r" and "\<And>st. Q st \<Longrightarrow> both P R (f st)"
  shows "both P R (and_then r f)"
  using assms by (cases r) (simp_all add: and_then_def)

lemma both_mono:
  assumes "both P Q r" and "\<And>out. P out \<Longrightarrow> P' out" and "\<And>st. Q st \<Longrightarrow> Q' st"
  shows "both P' Q' r"
  using assms by (cases r) simp_all

lemma both_rel_and_then:
  assumes "both (\<lambda>out. R st (final_state out)) (R st) r"
    and "\<And>st1. both (\<lambda>out. R st1 (final_state out)) (R st1) (f st1)"
    and "\<And>a b c. R a b \<Longrightarrow> R b c \<Longrightarrow> R a c"
  shows "both (\<lambda>out. R st (final_state out)) (R st) (and_then r f)"
proof (rule both_and_then [OF assms(1)])
  fix st1 assume "R st st1"
  then show "both (\<lambda>out. R st (final_state out)) (R st) (f st1)"
    using assms(2) [of st1] assms(3) by (cases "f st1") auto
qed

subsection \<open>cleanup and exit\<close>

lemma trace_cleanup:
  "trace (cleanup st) =
     trace st @ [LOG_WARNING ''Terminating'' [], message_post_shutdown, message_cleanup]
     @ (if group st then [select_group_destroy] else [])
     @ (if driver_console st then [driver_console_destroy] else [])
     @ (if driver_command st then [driver_command_destroy] else [])
     @ (if driver_dns st \<noteq> None then [driver_dns_destroy] else [])
     @ (if driver_exec st \<noteq> None then [driver_exec_destroy] else [])
     @ (if driver_listener st \<noteq> None then [driver_listener_destroy] else [])
     @ (if driver_ping st then [driver_ping_destroy] else [])
     @ [print_memory]"
  unfolding cleanup_def Let_def by (simp only: emit_if_fields emit_fields append_assoc append.simps)

lemma min_log_level_cleanup: "min_log_level (cleanup st) = min_log_level st"
  unfolding cleanup_def Let_def by (simp only: emit_if_fields emit_fields)

lemma cleanup_calls_eq:
  "cleanup_calls st =
     [LOG_WARNING ''Terminating'' [], message_post_shutdown, message_cleanup]
     @ (if group st then [select_group_destroy] else [])
     @ (if driver_console st then [driver_console_destroy] else [])
     @ (if driver_command st then [driver_command_destroy] else [])
     @ (if driver_dns st \<noteq> None then [driver_dns_destroy] else [])
     @ (if driver_exec st \<noteq> None then [driver_exec_destroy] else [])
     @ (if driver_listener st \<noteq> None then [driver_listener_destroy] else [])
     @ (if driver_ping st then [driver_ping_destroy] else [])
     @ [print_memory]"
  by (simp add: cleanup_calls_def trace_cleanup)

lemma exit_after_startup:
  "atexit_registered st \<Longrightarrow> exit_process code st = Exited code (cleanup st)"
  by (simp add: exit_process_def)

lemma usage_startup_exit:
  "\<not> atexit_registered st \<Longrightarrow> filter late_effect (trace st) = [] \<Longrightarrow>
   startup_exit (usage env message st)"
  by (simp add: startup_exit_def usage_def exit_process_def)

lemma usage_code:
  "\<not> atexit_registered st \<Longrightarrow> exit_code (usage env message st) = Some 0"
  by (simp add: usage_def exit_process_def)

subsection \<open>Invariant of the option loop\<close>

lemma startup_inv_initial: "startup_inv (initial_state env)"
  by (simp add: startup_inv_def initial_state_def no_input_driver_def)

lemma initial_fields:
  "input_set (initial_state env) = False" "output_set (initial_state env) = False"
  "name (initial_state env) = None" "download (initial_state env) = None"
  "chunk (initial_state env) = - 1" "dns_options_host (initial_state env) = None"
  "driver_dns (initial_state env) = None" "driver_console (initial_state env) = False"
  "driver_command (initial_state env) = False" "driver_ping (initial_state env) = False"
  "driver_exec (initial_state env) = None" "driver_listener (initial_state env) = None"
  "min_log_level (initial_state env) = LOG_LEVEL_WARNING env"
  by (simp_all add: initial_state_def)

lemma handle_option_inv:
  "startup_inv st \<Longrightarrow>
   both (\<lambda>out. startup_exit out \<and> exit_code out = Some 0) startup_inv (handle_option env k a st)"
  by (cases k) (simp_all add: startup_inv_def Let_def usage_startup_exit usage_code)

lemma getopt_loop_inv:
  "startup_inv st \<Longrightarrow>
   both (\<lambda>out. startup_exit out \<and> exit_code out = Some 0) startup_inv (getopt_loop env opts st)"
proof (induction opts arbitrary: st)
  case Nil
  then show ?case by simp
next
  case (Cons opt opts)
  show ?case
  proof (cases opt)
    case (Long n a)
    show ?thesis
      using handle_option_inv [OF Cons.prems, of env "option_kind_of n" a] Cons.IH
      by (cases "handle_option env (option_kind_of n) a st") (simp_all add: Long)
  next
    case Unrecognised
    then show ?thesis using Cons by simp
  qed
qed

lemma getopt_loop_append:
  "getopt_loop env (xs @ ys) st =
     (case getopt_loop env xs st of Inl out \<Rightarrow> Inl out | Inr st' \<Rightarrow> getopt_loop env ys st')"
proof (induction xs arbitrary: st)
  case Nil
  show ?case by simp
next
  case (Cons x xs)
  show ?case
  proof (cases x)
    case Unrecognised
    then show ?thesis using Cons by simp
  next
    case (Long n a)
    then show ?thesis
      using Cons by (cases "handle_option env (option_kind_of n) a st") simp_all
  qed
qed

lemma main_loop_exit:
  assumes "getopt_loop env opts (initial_state env) = Inl out"
  shows "main env opts rest = out"
  by (simp add: main_def assms and_then_def)

subsection \<open>What the option loop computes\<close>

lemma kinds_simps [simp]:
  "kinds [] = []"
  "kinds (Unrecognised # opts) = kinds opts"
  "kinds (Long n a # opts) = option_kind_of n # kinds opts"
  by (simp_all add: kinds_def)

lemma requests_simps [simp]:
  "input_requests [] = 0"
  "input_requests (Unrecognised # opts) = input_requests opts"
  "input_requests (Long n a # opts) =
     (if is_input_kind (option_kind_of n) then Suc (input_requests opts) else input_requests opts)"
  "output_requests [] = 0"
  "output_requests (Unrecognised # opts) = output_requests opts"
  "output_requests (Long n a # opts) =
     (if option_kind_of n = Opt_dns then Suc (output_requests opts) else output_requests opts)"
  by (simp_all add: input_requests_def output_requests_def)

lemma args_of_simps [simp]:
  "args_of k [] = []"
  "args_of k (Unrecognised # opts) = args_of k opts"
  "args_of k (Long n a # opts) =
     (if option_kind_of n = k then a # args_of k opts else args_of k opts)"
  by (simp_all add: args_of_def)

lemma last_arg_simps [simp]:
  "last_arg k [] = None"
  "last_arg k (Unrecognised # opts) = last_arg k opts"
  "last_arg k (Long n a # opts) =
     (case last_arg k opts of
        None \<Rightarrow> if option_kind_of n = k then Some a else None
      | Some b \<Rightarrow> Some b)"
  by (simp_all add: last_arg_def args_of_def split: list.splits)

lemma last_arg_None_iff: "last_arg k opts = None \<longleftrightarrow> k \<notin> set (kinds opts)"
proof (induction opts)
  case Nil
  show ?case by simp
next
  case (Cons opt opts)
  then show ?case by (cases opt) (auto split: option.splits)
qed

lemma last_arg_in_args: "last_arg k opts = Some a \<Longrightarrow> a \<in> set (args_of k opts)"
proof -
  assume "last_arg k opts = Some a"
  then obtain as where "rev (args_of k opts) = a # as"
    by (auto simp: last_arg_def split: list.splits)
  then have "a \<in> set (rev (args_of k opts))" by simp
  then show ?thesis by simp
qed

lemma output_requests_0_iff: "output_requests opts = 0 \<longleftrightarrow> Opt_dns \<notin> set (kinds opts)"
  by (auto simp: output_requests_def filter_empty_conv)

lemma pick_Long:
  "pick k (Long n a # opts) old = pick k opts (if option_kind_of n = k then Some a else old)"
  by (simp add: pick_def split: option.splits)

lemma handle_option_summary:
  "both (\<lambda>out. k = Opt_help \<or> k = Opt_else \<or> (is_input_kind k \<and> input_set st)
            \<or> (k = Opt_dns \<and> output_set st))
        (step_done k a st) (handle_option env k a st)"
  by (cases k) (simp_all add: step_done_def is_input_kind_def Let_def)

lemma step_done_decisions:
  assumes "step_done k a st st'"
  shows "k \<noteq> Opt_help" "k \<noteq> Opt_else" "is_input_kind k \<Longrightarrow> \<not> input_set st"
    "k = Opt_dns \<Longrightarrow> \<not> output_set st"
    "input_set st' = (input_set st \<or> is_input_kind k)"
    "output_set st' = (output_set st \<or> k = Opt_dns)"
  using assms by (simp_all add: step_done_def)

lemma step_done_fields:
  assumes "step_done k a st st'"
  shows "name st' = (if k = Opt_name then Some a else name st)"
    and "download st' = (if k = Opt_download then Some a else download st)"
    and "dns_options_host st' = (if k = Opt_dnshost then Some a else dns_options_host st)"
    and "chunk st' = (if k = Opt_chunk then of_int (atoi a) else chunk st)"
    and "driver_dns st' = (if k = Opt_dns
          then Some \<lparr>domain = a, dns_host = None, dns_port = 0\<rparr> else driver_dns st)"
    and "driver_console st' = (driver_console st \<or> k = Opt_stdin)"
    and "driver_command st' = (driver_command st \<or> k = Opt_command)"
    and "driver_ping st' = (driver_ping st \<or> k = Opt_ping)"
    and "(driver_exec st' \<noteq> None) = (driver_exec st \<noteq> None \<or> k = Opt_exec)"
    and "(driver_listener st' \<noteq> None) = (driver_listener st \<noteq> None \<or> k = Opt_listen)"
  using assms by (simp_all add: step_done_def)

lemma loop_accepts_Nil [simp]: "loop_accepts st []"
  by (simp add: loop_accepts_def)

lemma loop_accepts_Unrecognised [simp]:
  "loop_accepts st (Unrecognised # opts) = loop_accepts st opts"
  by (simp add: loop_accepts_def)

lemma loop_accepts_step:
  assumes "step_done (option_kind_of n) a st st'"
  shows "loop_accepts st (Long n a # opts) = loop_accepts st' opts"
proof -
  note d = step_done_decisions [OF assms]
  have "\<not> is_input_kind Opt_dns" by (simp add: is_input_kind_def)
  then show ?thesis
    using d(1,2,3,4)
    by (cases "is_input_kind (option_kind_of n)"; cases "option_kind_of n = Opt_dns";
        cases "input_set st"; cases "output_set st")
       (simp_all add: loop_accepts_def d(5,6))
qed

lemma loop_rejects_step:
  assumes "k = Opt_help \<or> k = Opt_else \<or> (is_input_kind k \<and> input_set st)
            \<or> (k = Opt_dns \<and> output_set st)" and "k = option_kind_of n"
  shows "\<not> loop_accepts st (Long n a # opts)"
  using assms by (auto simp: loop_accepts_def)

lemma loop_done_Nil [simp]: "loop_done [] st st"
  by (simp add: loop_done_def pick_def)

lemma loop_done_Unrecognised [simp]:
  "loop_done (Unrecognised # opts) st st' = loop_done opts st st'"
  by (simp add: loop_done_def pick_def)

lemma loop_done_fields:
  assumes "loop_done opts st st'"
  shows "name st' = pick Opt_name opts (name st)"
    and "download st' = pick Opt_download opts (download st)"
    and "dns_options_host st' = pick Opt_dnshost opts (dns_options_host st)"
    and "chunk st' = (case last_arg Opt_chunk opts of None \<Rightarrow> chunk st | Some a \<Rightarrow> of_int (atoi a))"
    and "driver_dns st' = (case last_arg Opt_dns opts of None \<Rightarrow> driver_dns st
          | Some d \<Rightarrow> Some \<lparr>domain = d, dns_host = None, dns_port = 0\<rparr>)"
    and "driver_console st' = (driver_console st \<or> Opt_stdin \<in> set (kinds opts))"
    and "driver_command st' = (driver_command st \<or> Opt_command \<in> set (kinds opts))"
    and "driver_ping st' = (driver_ping st \<or> Opt_ping \<in> set (kinds opts))"
    and "(driver_exec st' \<noteq> None) = (driver_exec st \<noteq> None \<or> Opt_exec \<in> set (kinds opts))"
    and "(driver_listener st' \<noteq> None)
         = (driver_listener st \<noteq> None \<or> Opt_listen \<in> set (kinds opts))"
  using assms by (simp_all add: loop_done_def)

lemma loop_done_decisions:
  assumes "loop_done opts st st'"
  shows "loop_accepts st opts"
    and "input_set st' = (input_set st \<or> input_requests opts \<noteq> 0)"
    and "output_set st' = (output_set st \<or> output_requests opts \<noteq> 0)"
  using assms by (simp_all add: loop_done_def)

lemma loop_done_step:
  assumes s: "step_done (option_kind_of n) a st st1" and l: "loop_done opts st1 st'"
  shows "loop_done (Long n a # opts) st st'"
proof -
  let ?k = "option_kind_of n"
  note sf = step_done_fields [OF s] and sd = step_done_decisions [OF s]
  note lf = loop_done_fields [OF l] and ld = loop_done_decisions [OF l]
  have acc: "loop_accepts st (Long n a # opts)"
    using ld(1) loop_accepts_step [OF s] by simp
  have i: "input_set st' = (input_set st \<or> input_requests (Long n a # opts) \<noteq> 0)"
    using ld(2) sd(5) by simp
  have ou: "output_set st' = (output_set st \<or> output_requests (Long n a # opts) \<noteq> 0)"
    using ld(3) sd(6) by simp
  have f1: "name st' = pick Opt_name (Long n a # opts) (name st)"
    using lf(1) sf(1) by (simp add: pick_Long)
  have f2: "download st' = pick Opt_download (Long n a # opts) (download st)"
    using lf(2) sf(2) by (simp add: pick_Long)
  have f3: "dns_options_host st' = pick Opt_dnshost (Long n a # opts) (dns_options_host st)"
    using lf(3) sf(3) by (simp add: pick_Long)
  have f4: "chunk st' = (case last_arg Opt_chunk (Long n a # opts) of
        None \<Rightarrow> chunk st | Some a \<Rightarrow> of_int (atoi a))"
    using lf(4) sf(4) by (simp split: option.splits)
  have f5: "driver_dns st' = (case last_arg Opt_dns (Long n a # opts) of None \<Rightarrow> driver_dns st
          | Some d \<Rightarrow> Some \<lparr>domain = d, dns_host = None, dns_port = 0\<rparr>)"
    using lf(5) sf(5) by (simp split: option.splits)
  have g1: "driver_console st' = (driver_console st \<or> Opt_stdin \<in> set (kinds (Long n a # opts)))"
    using lf(6) sf(6) by auto
  have g2: "driver_command st' = (driver_command st \<or> Opt_command \<in> set (kinds (Long n a # opts)))"
    using lf(7) sf(7) by auto
  have g3: "driver_ping st' = (driver_ping st \<or> Opt_ping \<in> set (kinds (Long n a # opts)))"
    using lf(8) sf(8) by auto
  have g4: "(driver_exec st' \<noteq> None)
       = (driver_exec st \<noteq> None \<or> Opt_exec \<in> set (kinds (Long n a # opts)))"
    using lf(9) sf(9) by auto
  have g5: "(driver_listener st' \<noteq> None)
       = (driver_listener st \<noteq> None \<or> Opt_listen \<in> set (kinds (Long n a # opts)))"
    using lf(10) sf(10) by auto
  show ?thesis
    unfolding loop_done_def
    by (intro conjI) (fact acc i ou f1 f2 f3 f4 f5 g1 g2 g3 g4 g5)+
qed

lemma getopt_loop_summary:
  "both (\<lambda>out. \<not> loop_accepts st opts) (loop_done opts st) (getopt_loop env opts st)"
proof (induction opts arbitrary: st)
  case Nil
  show ?case by simp
next
  case (Cons opt opts)
  show ?case
  proof (cases opt)
    case Unrecognised
    then show ?thesis using Cons by simp
  next
    case (Long n a)
    show ?thesis
    proof (cases "handle_option env (option_kind_of n) a st")
      case (Inl out)
      then show ?thesis
        using handle_option_summary [of "option_kind_of n" st a env] loop_rejects_step [of _ st n a opts]
        by (simp add: Long)
    next
      case (Inr st1)
      then have sd: "step_done (option_kind_of n) a st st1"
        using handle_option_summary [of "option_kind_of n" st a env] by simp
      show ?thesis
        using Cons [of st1] loop_accepts_step [OF sd, of opts] loop_done_step [OF sd]
        by (cases "getopt_loop env opts st1") (simp_all add: Long Inr)
    qed
  qed
qed

lemma loop_accepts_initial: "loop_accepts (initial_state env) opts = options_accepted opts"
  by (simp add: loop_accepts_def options_accepted_def initial_fields)

lemma options_accepted_loop:
  assumes "options_accepted opts"
  shows "\<exists>st. getopt_loop env opts (initial_state env) = Inr st"
proof (cases "getopt_loop env opts (initial_state env)")
  case (Inl out)
  then show ?thesis
    using getopt_loop_summary [of "initial_state env" opts env] assms
    by (simp add: loop_accepts_initial)
next
  case (Inr st)
  then show ?thesis by simp
qed

lemma loop_done_initial:
  assumes "loop_done opts (initial_state env) st"
  shows "options_accepted opts"
    and "input_set st = (input_requests opts \<noteq> 0)"
    and "output_set st = (Opt_dns \<in> set (kinds opts))"
    and "name st = last_arg Opt_name opts"
    and "download st = last_arg Opt_download opts"
    and "chunk st = requested_chunk opts"
    and "dns_options_host st = last_arg Opt_dnshost opts"
    and "driver_dns st = (case last_arg Opt_dns opts of None \<Rightarrow> None
          | Some d \<Rightarrow> Some \<lparr>domain = d, dns_host = None, dns_port = 0\<rparr>)"
    and "driver_console st = (Opt_stdin \<in> set (kinds opts))"
    and "driver_command st = (Opt_command \<in> set (kinds opts))"
    and "driver_ping st = (Opt_ping \<in> set (kinds opts))"
    and "(driver_exec st \<noteq> None) = (Opt_exec \<in> set (kinds opts))"
    and "(driver_listener st \<noteq> None) = (Opt_listen \<in> set (kinds opts))"
  using loop_done_decisions [OF assms] loop_done_fields [OF assms]
  by (simp_all add: initial_fields loop_accepts_initial output_requests_0_iff pick_def
      requested_chunk_def split: option.splits)

lemma loop_done_checks:
  assumes "loop_done opts (initial_state env) st"
  shows "domain_available rest st = (tunnel_domain opts rest \<noteq> None)"
    and "chunk_allowed st = chunk_accepted opts"
    and "resolver_of env st = resolver env opts"
proof -
  note f = loop_done_initial [OF assms]
  show "domain_available rest st = (tunnel_domain opts rest \<noteq> None)"
    using f(3) last_arg_None_iff [of Opt_dns opts]
    by (cases rest; cases "last_arg Opt_dns opts") (simp_all add: domain_available_def tunnel_domain_def)
  show "chunk_allowed st = chunk_accepted opts"
    using f(5,6) last_arg_None_iff [of Opt_download opts]
    by (simp add: chunk_allowed_def chunk_accepted_def)
  show "resolver_of env st = resolver env opts"
    using f(7) by (simp add: resolver_of_def resolver_def)
qed

subsection \<open>The checks after the option loop\<close>

lemma carried_refl [simp]: "carried st st" "carried st (emit e st)"
  by (simp_all add: carried_def)

lemma carried_trans: "carried st st' \<Longrightarrow> carried st' st'' \<Longrightarrow> carried st st''"
  by (simp add: carried_def)

lemma defaults_stage:
  assumes "startup_inv st"
  shows "both (\<lambda>out. startup_exit out \<and> exit_code out = Some 0 \<and> \<not> output_set st \<and> rest = [])
              (\<lambda>st'. attached_inv st' \<and> (output_set st \<or> rest \<noteq> []) \<and> carried st st'
                 \<and> driver_console st' = (driver_console st \<or> \<not> input_set st)
                 \<and> driver_dns st' = (if output_set st then driver_dns st
                      else Some \<lparr>domain = hd rest, dns_host = None, dns_port = 0\<rparr>))
              (default_output env rest (default_input st))"
  using assms
  by (cases rest)
     (auto simp: default_output_def default_input_def startup_inv_def attached_inv_def
        carried_def usage_startup_exit usage_code)

lemma check_chunk_stage:
  assumes "attached_inv st"
  shows "both (\<lambda>out. startup_exit out \<and> exit_code out = Some 1 \<and> chunk st \<noteq> - 1 \<and> download st = None)
              (\<lambda>st'. attached_inv st' \<and> (chunk st = - 1 \<or> download st \<noteq> None) \<and> carried st st'
                 \<and> driver_console st' = driver_console st \<and> driver_dns st' = driver_dns st)
              (check_chunk st)"
  using assms
  by (simp add: check_chunk_def attached_inv_def startup_exit_def exit_process_def)

lemma report_input_stage:
  assumes "attached_inv st"
  shows "both (\<lambda>out. False)
              (\<lambda>st'. attached_inv st' \<and> carried st st'
                 \<and> driver_console st' = driver_console st \<and> driver_dns st' = driver_dns st)
              (report_input st)"
proof -
  have "input_drivers st = 1" using assms by (simp add: attached_inv_def)
  from some_input_driver [OF this] show ?thesis
    using assms
    by (auto simp: report_input_def attached_inv_def split: option.splits)
qed

lemma configure_output_stage:
  assumes "attached_inv st"
  shows "both (\<lambda>out. startup_exit out \<and> exit_code out = Some 1 \<and> resolver_of env st = None)
              (\<lambda>st'. attached_inv st' \<and> resolver_of env st \<noteq> None \<and> carried st st'
                 \<and> driver_console st' = driver_console st
                 \<and> (\<exists>drv. driver_dns st = Some drv
                      \<and> driver_dns st' = Some (drv\<lparr>dns_host := resolver_of env st,
                            dns_port := dns_options_port st\<rparr>)))
              (configure_output env st)"
proof -
  obtain drv where drv: "driver_dns st = Some drv"
    using assms by (auto simp: attached_inv_def)
  show ?thesis
    using assms drv
    by (cases "resolver_of env st")
       (simp_all add: configure_output_def resolver_of_def attached_inv_def startup_exit_def
          exit_process_def carried_def Let_def)
qed

lemma after_loop_summary:
  assumes "startup_inv st"
  shows "both (after_loop_exit env rest st) (after_loop_done env rest st) (after_loop env rest st)"
proof -
  let ?P = "after_loop_exit env rest st"
  let ?Q1 = "\<lambda>st'. attached_inv st' \<and> domain_available rest st \<and> carried st st'
                 \<and> driver_console st' = (driver_console st \<or> \<not> input_set st)
                 \<and> driver_dns st' = (if output_set st then driver_dns st
                      else Some \<lparr>domain = hd rest, dns_host = None, dns_port = 0\<rparr>)"
  let ?Q2 = "\<lambda>st'. ?Q1 st' \<and> chunk_allowed st"
  have s1: "both ?P ?Q1 (default_output env rest (default_input st))"
    by (rule both_mono [OF defaults_stage [OF assms, of rest env]])
       (simp_all add: after_loop_exit_def domain_available_def exit_with_def)
  have s2: "both ?P ?Q2 (and_then (default_output env rest (default_input st)) check_chunk)"
  proof (rule both_and_then [OF s1])
    fix st1 assume q: "?Q1 st1"
    then have a: "attached_inv st1" and d: "domain_available rest st" and c: "carried st st1"
      by simp_all
    have e: "chunk st1 = chunk st" "download st1 = download st"
      using c by (simp_all add: carried_def)
    show "both ?P ?Q2 (check_chunk st1)"
    proof (rule both_mono [OF check_chunk_stage [OF a]])
      fix out
      assume "startup_exit out \<and> exit_code out = Some 1 \<and> chunk st1 \<noteq> - 1 \<and> download st1 = None"
      then show "?P out"
        using d e by (simp add: after_loop_exit_def exit_with_def chunk_allowed_def)
    next
      fix st'
      assume h: "attached_inv st' \<and> (chunk st1 = - 1 \<or> download st1 \<noteq> None) \<and> carried st1 st'
         \<and> driver_console st' = driver_console st1 \<and> driver_dns st' = driver_dns st1"
      then have "carried st st'" using c carried_trans by blast
      then show "?Q2 st'"
        using h q e by (simp add: chunk_allowed_def)
    qed
  qed
  have s3: "both ?P ?Q2
      (and_then (and_then (default_output env rest (default_input st)) check_chunk) report_input)"
  proof (rule both_and_then [OF s2])
    fix st2 assume q: "?Q2 st2"
    then have a: "attached_inv st2" and c: "carried st st2" by simp_all
    show "both ?P ?Q2 (report_input st2)"
    proof (rule both_mono [OF report_input_stage [OF a]])
      fix st'
      assume h: "attached_inv st' \<and> carried st2 st'
         \<and> driver_console st' = driver_console st2 \<and> driver_dns st' = driver_dns st2"
      then have "carried st st'" using c carried_trans by blast
      then show "?Q2 st'" using h q by simp
    qed simp
  qed
  show ?thesis
    unfolding after_loop_def
  proof (rule both_and_then [OF s3])
    fix st3 assume q: "?Q2 st3"
    then have a: "attached_inv st3" and d: "domain_available rest st" and c: "carried st st3"
      and k: "chunk_allowed st" by simp_all
    have r: "resolver_of env st3 = resolver_of env st"
      and p: "dns_options_port st3 = dns_options_port st"
      using c by (simp_all add: resolver_of_def carried_def)
    show "both ?P (after_loop_done env rest st) (configure_output env st3)"
    proof (rule both_mono [OF configure_output_stage [OF a, of env]])
      fix out
      assume "startup_exit out \<and> exit_code out = Some 1 \<and> resolver_of env st3 = None"
      then show "?P out"
        using d r by (simp add: after_loop_exit_def exit_with_def)
    next
      fix st'
      assume h: "attached_inv st' \<and> resolver_of env st3 \<noteq> None \<and> carried st3 st'
         \<and> driver_console st' = driver_console st3
         \<and> (\<exists>drv. driver_dns st3 = Some drv
              \<and> driver_dns st' = Some (drv\<lparr>dns_host := resolver_of env st3,
                    dns_port := dns_options_port st3\<rparr>))"
      then have "carried st st'" using c carried_trans by blast
      moreover from h obtain drv where "driver_dns st3 = Some drv"
        "driver_dns st' = Some (drv\<lparr>dns_host := resolver_of env st,
                    dns_port := dns_options_port st\<rparr>)"
        using r p by auto
      ultimately show "after_loop_done env rest st st'"
        using h q d k r unfolding after_loop_done_def by (cases "output_set st") simp_all
    qed
  qed
qed

lemma start_summary: "\<exists>st'. start st = Reactor st' \<and> started st st'"
  by (cases "name st"; cases "download st"; cases "chunk st = 0xFFFFFFFF")
     (simp_all add: start_def started_def config_posts_def carried_def Let_def)

subsection \<open>Summary of main\<close>

lemma main_summary: "main_post env opts rest (main env opts rest)"
proof (cases "getopt_loop env opts (initial_state env)")
  case (Inl out)
  have "startup_exit out \<and> exit_code out = Some 0"
    using getopt_loop_inv [where st = "initial_state env" and env = env and opts = opts, OF startup_inv_initial] Inl by simp
  moreover have "\<not> options_accepted opts"
    using getopt_loop_summary [of "initial_state env" opts env] Inl
    by (simp add: loop_accepts_initial)
  moreover have "main env opts rest = out"
    by (simp add: main_def Inl and_then_def)
  ultimately show ?thesis
    by (cases out) (simp_all add: main_post_def cmdline_accepted_def startup_exit_def)
next
  case (Inr st1)
  have inv: "startup_inv st1"
    using getopt_loop_inv [where st = "initial_state env" and env = env and opts = opts, OF startup_inv_initial] Inr by simp
  have ld: "loop_done opts (initial_state env) st1"
    using getopt_loop_summary [of "initial_state env" opts env] Inr by simp
  note f = loop_done_initial [OF ld] and c = loop_done_checks [OF ld]
  show ?thesis
  proof (cases "after_loop env rest st1")
    case (Inl out)
    have m: "main env opts rest = out"
      by (simp add: main_def Inr Inl and_then_def)
    have x: "after_loop_exit env rest st1 out"
      using after_loop_summary [OF inv, of env rest] Inl by simp
    show ?thesis
    proof (cases out)
      case (Exited code st)
      then show ?thesis
        using x f(1) unfolding m main_post_def after_loop_exit_def c exit_with_def cmdline_accepted_def
        by (auto split: if_splits)
    next
      case (Reactor st)
      then show ?thesis
        using x by (simp add: after_loop_exit_def exit_with_def startup_exit_def split: if_splits)
    qed
  next
    case inr2: (Inr st2)
    have d: "after_loop_done env rest st1 st2"
      using after_loop_summary [OF inv, of env rest] inr2 by simp
    obtain st3 where s3: "start st2 = Reactor st3" and st: "started st2 st3"
      using start_summary by blast
    have m: "main env opts rest = Reactor st3"
      by (simp add: main_def Inr inr2 and_then_def s3)
    have acc: "cmdline_accepted opts rest" "resolver env opts \<noteq> None"
      using d f(1) by (simp_all add: after_loop_done_def c cmdline_accepted_def)
    have a2: "attached_inv st2" and c12: "carried st1 st2"
      and con: "driver_console st2 = (driver_console st1 \<or> \<not> input_set st1)"
      using d by (simp_all add: after_loop_done_def)
    have c23: "carried st2 st3"
      and s: "atexit_registered st3" "group st3 = group st2" "input_drivers st3 = input_drivers st2"
        "driver_console st3 = driver_console st2" "driver_dns st3 = driver_dns st2"
        "trace st3 = trace st2 @ [atexit_cleanup] @ config_posts (name st2) (download st2) (chunk st2)
           @ [message_post_start, select_set_timeout]"
      using st by (simp_all add: started_def)
    have c13: "carried st1 st3" using c12 c23 by (rule carried_trans)
    have e2: "name st2 = last_arg Opt_name opts" "download st2 = last_arg Opt_download opts"
      "chunk st2 = requested_chunk opts"
      using c12 f(4,5,6) by (simp_all add: carried_def)
    have late: "filter late_effect (config_posts n dl ch) = config_posts n dl ch" for n dl ch
      by (simp add: config_posts_def split: option.splits)
    have r1: "atexit_registered st3 \<and> group st3 \<and> input_drivers st3 = 1"
      using s a2 by (simp add: attached_inv_def)
    have r2: "driver_console st3 = (Opt_stdin \<in> set (kinds opts) \<or> input_requests opts = 0)"
      using s(4) con f(2,9) by auto
    have r3: "driver_command st3 = (Opt_command \<in> set (kinds opts))"
      "driver_ping st3 = (Opt_ping \<in> set (kinds opts))"
      "(driver_exec st3 \<noteq> None) = (Opt_exec \<in> set (kinds opts))"
      "(driver_listener st3 \<noteq> None) = (Opt_listen \<in> set (kinds opts))"
      using c13 f(10,11,12,13) by (simp_all add: carried_def)
    have r4: "\<exists>drv. driver_dns st3 = Some drv \<and> Some (domain drv) = tunnel_domain opts rest
          \<and> dns_host drv = resolver env opts"
    proof -
      from d obtain drv where drv: "if output_set st1 then driver_dns st1 = Some drv
                else drv = \<lparr>domain = hd rest, dns_host = None, dns_port = 0\<rparr>"
        and d2: "driver_dns st2 = Some (drv\<lparr>dns_host := resolver_of env st1,
                dns_port := dns_options_port st1\<rparr>)"
        and da: "domain_available rest st1"
        unfolding after_loop_done_def by blast
      have "Some (domain drv) = tunnel_domain opts rest"
      proof (cases "last_arg Opt_dns opts")
        case None
        then have "\<not> output_set st1" using f(3) last_arg_None_iff [of Opt_dns opts] by simp
        then show ?thesis
          using drv da None by (cases rest) (simp_all add: tunnel_domain_def domain_available_def)
      next
        case (Some dd)
        then have "output_set st1" using f(3) last_arg_None_iff [of Opt_dns opts] by simp
        then show ?thesis
          using drv f(8) Some by (auto simp: tunnel_domain_def)
      qed
      then show ?thesis using d2 s(5) c(3) by simp
    qed
    have r5: "length (filter input_create (trace st3)) = 1"
      "length (filter output_create (trace st3)) = 1"
      using a2 by (simp_all add: s(6) attached_inv_def config_posts_def split: option.splits)
    have r6: "filter late_effect (trace st3) =
         atexit_cleanup # config_posts (last_arg Opt_name opts) (last_arg Opt_download opts)
           (requested_chunk opts) @ [message_post_start, select_set_timeout]"
      using a2 by (simp add: s(6) e2 late attached_inv_def)
    have "reactor_state env opts rest st3"
      unfolding reactor_state_def using r1 r2 r3 r4 r5 r6 by blast
    then show ?thesis
      using acc by (simp add: m main_post_def)
  qed
qed

lemma main_exited:
  assumes "main env opts rest = Exited code st"
  shows "\<not> atexit_registered st" and "filter late_effect (trace st) = []"
    and "\<not> (cmdline_accepted opts rest \<and> resolver env opts \<noteq> None)"
    and "code = (if options_accepted opts \<and> tunnel_domain opts rest \<noteq> None then 1 else 0)"
  using main_summary [of env opts rest] by (simp_all add: assms main_post_def startup_exit_def)

lemma main_reactor:
  assumes "main env opts rest = Reactor st"
  shows "cmdline_accepted opts rest" and "resolver env opts \<noteq> None"
    and "reactor_state env opts rest st"
  using main_summary [of env opts rest] by (simp_all add: assms main_post_def)

lemma is_reactor_main:
  "is_reactor (main env opts rest) \<longleftrightarrow> cmdline_accepted opts rest \<and> resolver env opts \<noteq> None"
proof (cases "main env opts rest")
  case (Exited code st)
  then show ?thesis using main_exited(3) [OF Exited] by simp
next
  case (Reactor st)
  then show ?thesis using main_reactor(1,2) [OF Reactor] by simp
qed

lemma exit_code_main:
  "exit_code (main env opts rest) =
     (if cmdline_accepted opts rest \<and> resolver env opts \<noteq> None then None
      else if options_accepted opts \<and> tunnel_domain opts rest \<noteq> None then Some 1 else Some 0)"
proof (cases "main env opts rest")
  case (Exited code st)
  then show ?thesis using main_exited(3,4) [OF Exited] by simp
next
  case (Reactor st)
  then show ?thesis using main_reactor(1,2) [OF Reactor] by simp
qed

lemma bus_post_late: "filter bus_post (filter late_effect xs) = filter bus_post xs"
proof -
  have "bus_post e \<Longrightarrow> late_effect e" for e by (cases e) simp_all
  then have "(\<lambda>x. late_effect x \<and> bus_post x) = bus_post" by auto
  then show ?thesis by simp
qed

lemma bus_post_config_posts: "filter bus_post (config_posts n d c) = config_posts n d c"
  by (simp add: config_posts_def split: option.splits)

lemma config_int_post_late:
  "filter config_int_post (filter late_effect xs) = filter config_int_post xs"
proof -
  have "config_int_post e \<Longrightarrow> late_effect e" for e by (cases e) simp_all
  then have "(\<lambda>x. late_effect x \<and> config_int_post x) = config_int_post" by auto
  then show ?thesis by simp
qed

subsection \<open>The log level\<close>

lemma same_levels_refl [simp]: "same_levels st st"
  by (simp add: same_levels_def)

lemma same_levels_trans: "same_levels st st' \<Longrightarrow> same_levels st' st'' \<Longrightarrow> same_levels st st''"
  by (simp add: same_levels_def)

lemma same_levels_emit [simp]: "\<not> level_call e \<Longrightarrow> same_levels st (emit e st)"
  by (simp add: same_levels_def)

lemma same_levels_cleanup: "same_levels st (cleanup st)"
  by (simp add: same_levels_def trace_cleanup min_log_level_cleanup)

lemma same_levels_exit:
  "same_levels st st' \<Longrightarrow> same_levels st (final_state (exit_process code st'))"
  using same_levels_cleanup [of st'] same_levels_trans [of st st' "cleanup st'"]
  by (simp add: exit_process_def)

lemma same_levels_usage: "same_levels st (final_state (usage env m st))"
  unfolding usage_def by (rule same_levels_exit) simp

lemma defaults_levels:
  "both (\<lambda>out. same_levels st (final_state out)) (same_levels st)
     (default_output env rest (default_input st))"
proof -
  have a: "same_levels st (default_input st)"
    by (simp add: default_input_def same_levels_def)
  have "both (\<lambda>out. same_levels (default_input st) (final_state out)) (same_levels (default_input st))
     (default_output env rest (default_input st))"
    by (cases rest) (simp_all add: default_output_def same_levels_usage, simp add: same_levels_def)
  then show ?thesis
    by (rule both_mono) (use a same_levels_trans in blast)+
qed

lemma check_chunk_levels:
  "both (\<lambda>out. same_levels st (final_state out)) (same_levels st) (check_chunk st)"
  by (simp add: check_chunk_def same_levels_exit)

lemma report_input_levels:
  "both (\<lambda>out. same_levels st (final_state out)) (same_levels st) (report_input st)"
  by (simp add: report_input_def same_levels_exit split: option.splits)

lemma configure_output_levels:
  "both (\<lambda>out. same_levels st (final_state out)) (same_levels st) (configure_output env st)"
proof (cases "driver_dns st")
  case None
  then show ?thesis by (simp add: configure_output_def same_levels_exit)
next
  case (Some drv)
  have e: "same_levels st (emit e2 (emit e1 (st\<lparr>driver_dns := d\<rparr>)))"
    if "\<not> level_call e1" "\<not> level_call e2" for e1 e2 d
    using that by (simp add: same_levels_def)
  have f: "same_levels st (emit e1 (st\<lparr>driver_dns := d\<rparr>))" if "\<not> level_call e1" for e1 d
    using that by (simp add: same_levels_def)
  show ?thesis
    by (simp add: configure_output_def Some Let_def same_levels_exit e f)
qed

lemma after_loop_levels:
  "both (\<lambda>out. same_levels st (final_state out)) (same_levels st) (after_loop env rest st)"
  unfolding after_loop_def
  by (intro both_rel_and_then defaults_levels check_chunk_levels report_input_levels
      configure_output_levels) (erule (1) same_levels_trans)+

lemma start_levels: "same_levels st (final_state (start st))"
  by (cases "name st"; cases "download st"; cases "chunk st = 0xFFFFFFFF")
     (simp_all add: start_def same_levels_def Let_def)

lemma main_levels:
  assumes "getopt_loop env opts (initial_state env) = Inr st1"
  shows "same_levels st1 (final_state (main env opts rest))"
proof (cases "after_loop env rest st1")
  case (Inl out)
  then show ?thesis
    using after_loop_levels [of st1 env rest] by (simp add: main_def assms and_then_def)
next
  case (Inr st2)
  then show ?thesis
    using after_loop_levels [of st1 env rest] start_levels [of st2] same_levels_trans
    by (simp add: main_def assms and_then_def)
qed

lemma final_log_level_main:
  assumes "getopt_loop env opts (initial_state env) = Inr st1"
  shows "final_log_level (main env opts rest) = min_log_level st1"
  using main_levels [OF assms, of rest] by (simp add: final_log_level_def same_levels_def)

lemma level_nonneg_filter: "list_all level_nonneg (filter level_call xs) = list_all level_nonneg xs"
proof (induction xs)
  case Nil
  show ?case by simp
next
  case (Cons e xs)
  then show ?case by (cases e) simp_all
qed

lemma same_levels_nonneg:
  assumes "same_levels st st'"
  shows "nonneg_levels st' = nonneg_levels st"
  using assms level_nonneg_filter [of "trace st"] level_nonneg_filter [of "trace st'"]
  by (simp add: same_levels_def nonneg_levels_def)

lemma usage_nonneg: "nonneg_levels (final_state (usage env m st)) = nonneg_levels st"
  by (rule same_levels_nonneg [OF same_levels_usage])

lemma handle_option_nonneg:
  "nonneg_levels st \<Longrightarrow>
   both (\<lambda>out. nonneg_levels (final_state out)) nonneg_levels (handle_option env k a st)"
  by (cases k) (simp_all add: usage_nonneg Let_def, simp_all add: nonneg_levels_def)

lemma getopt_loop_nonneg:
  "nonneg_levels st \<Longrightarrow>
   both (\<lambda>out. nonneg_levels (final_state out)) nonneg_levels (getopt_loop env opts st)"
proof (induction opts arbitrary: st)
  case Nil
  then show ?case by simp
next
  case (Cons opt opts)
  show ?case
  proof (cases opt)
    case (Long n a)
    show ?thesis
      using handle_option_nonneg [OF Cons.prems, of env "option_kind_of n" a] Cons.IH
      by (cases "handle_option env (option_kind_of n) a st") (simp_all add: Long)
  next
    case Unrecognised
    then show ?thesis using Cons by simp
  qed
qed

lemma main_nonneg:
  assumes "0 \<le> LOG_LEVEL_WARNING env"
  shows "nonneg_levels (final_state (main env opts rest))"
proof -
  have i: "nonneg_levels (initial_state env)"
    using assms by (simp add: nonneg_levels_def initial_state_def)
  show ?thesis
  proof (cases "getopt_loop env opts (initial_state env)")
    case (Inl out)
    then show ?thesis
      using getopt_loop_nonneg [OF i, of env opts] by (simp add: main_loop_exit [OF Inl])
  next
    case (Inr st1)
    then have "nonneg_levels st1"
      using getopt_loop_nonneg [OF i, of env opts] by simp
    then show ?thesis
      using same_levels_nonneg [OF main_levels [OF Inr, of rest]] by simp
  qed
qed

lemma kind_d [simp]: "option_kind_of ''d'' = Opt_d"
  by (simp add: option_kind_of_def)

lemma kind_q [simp]: "option_kind_of ''q'' = Opt_q"
  by (simp add: option_kind_of_def)

lemma loop_replicate_d:
  "0 \<le> min_log_level st \<Longrightarrow>
   \<exists>st'. getopt_loop env (replicate n (Long ''d'' a)) st = Inr st'
     \<and> min_log_level st' = max 0 (min_log_level st - int n)"
proof (induction n arbitrary: st)
  case 0
  then show ?case by simp
next
  case (Suc n)
  show ?case
  proof (cases "0 < min_log_level st")
    case True
    let ?st1 = "emit (log_set_min_console_level (min_log_level st - 1))
        (st\<lparr>min_log_level := min_log_level st - 1\<rparr>)"
    have "0 \<le> min_log_level ?st1" using True by simp
    from Suc.IH [OF this] show ?thesis
      using True by (auto simp: Let_def)
  next
    case False
    with Suc.prems have z: "min_log_level st = 0" by simp
    from Suc.IH [OF Suc.prems] show ?thesis
      using z by (auto simp: Let_def)
  qed
qed

lemma loop_replicate_q:
  "\<exists>st'. getopt_loop env (replicate n (Long ''q'' a)) st = Inr st'
     \<and> min_log_level st' = min_log_level st"
proof (induction n arbitrary: st)
  case 0
  show ?case by simp
next
  case (Suc n)
  from Suc [of "emit (log_set_min_console_level (min_log_level st)) st"]
  show ?case by simp
qed

subsection \<open>A chunk number that is the initial value\<close>

lemma loop_chunk_filter:
  assumes "chunk st = - 1"
    and "\<forall>a\<in>set (args_of Opt_chunk opts). (of_int (atoi a) :: uint32_t) = - 1"
  shows "getopt_loop env opts st = getopt_loop env (filter (\<lambda>opt. \<not> is_chunk opt) opts) st"
  using assms
proof (induction opts arbitrary: st)
  case Nil
  show ?case by simp
next
  case (Cons opt opts)
  show ?case
  proof (cases opt)
    case Unrecognised
    then show ?thesis using Cons by simp
  next
    case (Long n a)
    show ?thesis
    proof (cases "option_kind_of n = Opt_chunk")
      case True
      then have "(of_int (atoi a) :: uint32_t) = - 1"
        using Cons.prems(2) by (simp add: Long)
      moreover have "st\<lparr>chunk := chunk st\<rparr> = st" by simp
      ultimately have "handle_option env Opt_chunk a st = Inr st"
        using Cons.prems(1) by simp
      then show ?thesis
        using Cons.IH [of st] Cons.prems by (simp add: Long True del: handle_option.simps)
    next
      case False
      show ?thesis
      proof (cases "handle_option env (option_kind_of n) a st")
        case (Inl out)
        then show ?thesis by (simp add: Long False)
      next
        case (Inr st1)
        then have "step_done (option_kind_of n) a st st1"
          using handle_option_summary [of "option_kind_of n" st a env] by simp
        then have "chunk st1 = - 1"
          using step_done_fields(4) False Cons.prems(1) by simp
        then show ?thesis
          using Cons.IH [of st1] Cons.prems(2) by (simp add: Long False Inr)
      qed
    qed
  qed
qed

section \<open>The claims of the specification\<close>

text \<open>
  Claim C1, as the specification states it: every command line with a configuration error
  (more than one input option, \<open>--chunk\<close> without \<open>--download\<close>, no tunnel domain)
  ends the process during startup with exit code 1. With \<open>--exec\<close> and \<open>--listen\<close>
  together the second option ends in \<open>usage\<close>, which calls \<open>exit(0)\<close>: the exit code
  is 0. With \<open>--chunk -1\<close> and no \<open>--download\<close> the process does not end at all: the
  chunk number is still the initial value and startup succeeds.
\<close>

theorem two_inputs_exit_code_counterexample:
  "input_requests [Long ''exec'' ''/bin/sh'', Long ''listen'' ''4444''] = 2
   \<and> exit_code (main example_env [Long ''exec'' ''/bin/sh'', Long ''listen'' ''4444'']
        [''example.org'']) = Some 0
   \<and> Opt_chunk \<in> set (kinds [Long ''chunk'' ''-1''])
   \<and> Opt_download \<notin> set (kinds [Long ''chunk'' ''-1''])
   \<and> is_reactor (main example_env [Long ''chunk'' ''-1''] [''example.org''])"
  by code_simp

text \<open>
  Claim C1, as the code has it: a command line with more than one input option, with no
  tunnel domain, or whose last \<open>--chunk\<close> value converts to a chunk number other than
  \<open>0xFFFFFFFF\<close> while there is no \<open>--download\<close>, never reaches the reactor loop. With more than one input option the exit code is 0. The
  exit code is 1 when the chunk check is the one that fails, that is when the option loop
  accepts the command line and a domain is given. The exit code for a missing domain is
  left open here: line 340 asks for 1 after a call of \<open>usage\<close> that has already left
  with 0.
\<close>

theorem configuration_errors_exit:
  "(2 \<le> input_requests opts \<longrightarrow> exit_code (main env opts rest) = Some 0)
   \<and> (tunnel_domain opts rest = None \<longrightarrow> \<not> is_reactor (main env opts rest))
   \<and> (\<not> chunk_accepted opts \<longrightarrow> \<not> is_reactor (main env opts rest))
   \<and> (options_accepted opts \<and> tunnel_domain opts rest \<noteq> None \<and> \<not> chunk_accepted opts \<longrightarrow>
        exit_code (main env opts rest) = Some 1)"
proof (intro conjI impI)
  assume "2 \<le> input_requests opts"
  then have "\<not> options_accepted opts" by (simp add: options_accepted_def)
  then show "exit_code (main env opts rest) = Some 0"
    by (simp add: exit_code_main cmdline_accepted_def)
next
  assume "tunnel_domain opts rest = None"
  then show "\<not> is_reactor (main env opts rest)"
    by (simp add: is_reactor_main cmdline_accepted_def)
next
  assume "\<not> chunk_accepted opts"
  then show "\<not> is_reactor (main env opts rest)"
    by (simp add: is_reactor_main cmdline_accepted_def)
next
  assume "options_accepted opts \<and> tunnel_domain opts rest \<noteq> None \<and> \<not> chunk_accepted opts"
  then show "exit_code (main env opts rest) = Some 1"
    by (simp add: exit_code_main cmdline_accepted_def)
qed

text \<open>
  The three kinds of error at concrete command lines: \<open>--command --stdin\<close>, no
  argument at all, and \<open>--chunk 5\<close> alone.
\<close>

theorem configuration_errors_exit_witness:
  "2 \<le> input_requests [Long ''command'' [], Long ''stdin'' []]
   \<and> exit_code (main example_env [Long ''command'' [], Long ''stdin'' []] [''example.org'']) = Some 0
   \<and> tunnel_domain [] [] = None \<and> \<not> is_reactor (main example_env [] [])
   \<and> options_accepted [Long ''chunk'' ''5''] \<and> \<not> chunk_accepted [Long ''chunk'' ''5'']
   \<and> tunnel_domain [Long ''chunk'' ''5''] [''example.org''] \<noteq> None
   \<and> \<not> is_reactor (main example_env [Long ''chunk'' ''5''] [''example.org''])
   \<and> exit_code (main example_env [Long ''chunk'' ''5''] [''example.org'']) = Some 1"
proof -
  have h: "2 \<le> input_requests [Long ''command'' [], Long ''stdin'' []]"
    "tunnel_domain [] [] = None"
    "options_accepted [Long ''chunk'' ''5'']" "\<not> chunk_accepted [Long ''chunk'' ''5'']"
    "tunnel_domain [Long ''chunk'' ''5''] [''example.org''] \<noteq> None"
    by code_simp+
  show ?thesis
    using configuration_errors_exit [of "[Long ''command'' [], Long ''stdin'' []]" example_env
        "[''example.org'']"]
      configuration_errors_exit [of "[]" example_env "[]"]
      configuration_errors_exit [of "[Long ''chunk'' ''5'']" example_env "[''example.org'']"]
      h
    by simp
qed

text \<open>
  Claim C2: each \<open>-d\<close> lowers the minimum console log level by one and each \<open>-q\<close>
  raises it by one. The branch for \<open>-q\<close> (lines 311 to 314) calls
  \<open>log_set_min_console_level\<close> without changing \<open>min_log_level\<close>, although the help text
  promises less debug output and the \<open>--ping\<close> branch does increment before the same call.
  Hence any number of \<open>-q\<close> leaves the level at the default, and \<open>-q\<close> flags at the
  end of any command line leave the level where the options before them have put it.
\<close>

theorem q_flag_keeps_log_level:
  "final_log_level (main env (replicate n (Long ''q'' a)) rest) = LOG_LEVEL_WARNING env
   \<and> final_log_level (main env (opts @ replicate n (Long ''q'' a)) rest)
       = final_log_level (main env opts rest)"
proof
  obtain st1 where l: "getopt_loop env (replicate n (Long ''q'' a)) (initial_state env) = Inr st1"
    and m: "min_log_level st1 = min_log_level (initial_state env)"
    using loop_replicate_q by blast
  show "final_log_level (main env (replicate n (Long ''q'' a)) rest) = LOG_LEVEL_WARNING env"
    by (simp add: final_log_level_main [OF l] m initial_fields)
  show "final_log_level (main env (opts @ replicate n (Long ''q'' a)) rest)
       = final_log_level (main env opts rest)"
  proof (cases "getopt_loop env opts (initial_state env)")
    case (Inl out)
    then have "getopt_loop env (opts @ replicate n (Long ''q'' a)) (initial_state env) = Inl out"
      by (simp add: getopt_loop_append)
    then show ?thesis
      using Inl by (simp add: main_loop_exit)
  next
    case (Inr st2)
    obtain st3 where l3: "getopt_loop env (replicate n (Long ''q'' a)) st2 = Inr st3"
      and m3: "min_log_level st3 = min_log_level st2"
      using loop_replicate_q by blast
    have "getopt_loop env (opts @ replicate n (Long ''q'' a)) (initial_state env) = Inr st3"
      by (simp add: getopt_loop_append Inr l3)
    then show ?thesis
      by (simp add: final_log_level_main Inr m3)
  qed
qed

text \<open>
  Claim C3, as the specification states it: \<open>cleanup\<close> posts the shutdown event and then
  destroys the session engine, the input drivers, the DNS driver, the message bus and the
  select group, in this order. In the source the bus and the select group go first: after
  a start with the default console driver the calls are as listed, with
  \<open>message_cleanup\<close> and \<open>select_group_destroy\<close> before both driver destructors.
\<close>

theorem bus_destroyed_before_drivers_counterexample:
  "is_reactor (main example_env [] [''example.org''])
   \<and> cleanup_calls (final_state (main example_env [] [''example.org''])) =
     [LOG_WARNING ''Terminating'' [], message_post_shutdown, message_cleanup, select_group_destroy,
      driver_console_destroy, driver_dns_destroy, print_memory]
   \<and> occurs_before message_cleanup driver_console_destroy
        (cleanup_calls (final_state (main example_env [] [''example.org''])))
   \<and> occurs_before select_group_destroy driver_dns_destroy
        (cleanup_calls (final_state (main example_env [] [''example.org''])))
   \<and> \<not> occurs_before driver_dns_destroy message_cleanup
        (cleanup_calls (final_state (main example_env [] [''example.org''])))"
  by code_simp

text \<open>
  Claim C3, as the code has it: once startup has succeeded, \<open>exit\<close> runs \<open>cleanup\<close>,
  which logs, posts the shutdown event, cleans up the message bus, destroys the select group
  and only then the drivers, in the fixed order console, command, DNS, exec, listener, ping,
  of which exactly the one input driver and the DNS driver exist. No destructor of the
  session engine is called.
\<close>

theorem cleanup_order:
  assumes "main env opts rest = Reactor st"
  shows "exit_process code st = Exited code (cleanup st)
    \<and> cleanup_calls st =
       [LOG_WARNING ''Terminating'' [], message_post_shutdown, message_cleanup, select_group_destroy]
       @ (if Opt_command \<in> set (kinds opts) then [driver_command_destroy, driver_dns_destroy]
          else if Opt_exec \<in> set (kinds opts) then [driver_dns_destroy, driver_exec_destroy]
          else if Opt_listen \<in> set (kinds opts) then [driver_dns_destroy, driver_listener_destroy]
          else if Opt_ping \<in> set (kinds opts) then [driver_dns_destroy, driver_ping_destroy]
          else [driver_console_destroy, driver_dns_destroy])
       @ [print_memory]"
proof -
  have r: "reactor_state env opts rest st" by (rule main_reactor(3) [OF assms])
  have a: "atexit_registered st" and g: "group st" and one: "input_drivers st = 1"
    and f: "driver_command st = (Opt_command \<in> set (kinds opts))"
      "driver_ping st = (Opt_ping \<in> set (kinds opts))"
      "(driver_exec st \<noteq> None) = (Opt_exec \<in> set (kinds opts))"
      "(driver_listener st \<noteq> None) = (Opt_listen \<in> set (kinds opts))"
    using r by (simp_all add: reactor_state_def)
  have d: "driver_dns st \<noteq> None"
    using r unfolding reactor_state_def by auto
  have c: "cleanup_calls st =
       [LOG_WARNING ''Terminating'' [], message_post_shutdown, message_cleanup, select_group_destroy]
       @ (if driver_command st then [driver_command_destroy, driver_dns_destroy]
          else if driver_exec st \<noteq> None then [driver_dns_destroy, driver_exec_destroy]
          else if driver_listener st \<noteq> None then [driver_dns_destroy, driver_listener_destroy]
          else if driver_ping st then [driver_dns_destroy, driver_ping_destroy]
          else [driver_console_destroy, driver_dns_destroy])
       @ [print_memory]"
    using one g d
    by (cases "driver_console st"; cases "driver_command st"; cases "driver_exec st";
        cases "driver_listener st"; cases "driver_ping st")
       (simp_all add: cleanup_calls_eq input_drivers_def)
  show ?thesis
    using c exit_after_startup [OF a] unfolding f by simp
qed

text \<open>
  With \<open>--exec /bin/sh\<close> the DNS driver is destroyed before the exec driver.
\<close>

theorem cleanup_order_witness:
  "is_reactor (main example_env [Long ''exec'' ''/bin/sh''] [''example.org''])
   \<and> cleanup_calls (final_state (main example_env [Long ''exec'' ''/bin/sh''] [''example.org''])) =
     [LOG_WARNING ''Terminating'' [], message_post_shutdown, message_cleanup, select_group_destroy,
      driver_dns_destroy, driver_exec_destroy, print_memory]"
proof -
  let ?opts = "[Long ''exec'' ''/bin/sh'']"
  have "is_reactor (main example_env ?opts [''example.org''])"
    by code_simp
  then obtain st where m: "main example_env ?opts [''example.org''] = Reactor st"
    by (cases "main example_env ?opts [''example.org'']") simp_all
  have k: "option_kind_of ''exec'' = Opt_exec" by code_simp
  show ?thesis
    using cleanup_order [OF m, of 0] by (simp add: m k)
qed

text \<open>
  Claim C4, as the specification states it: a tunnel domain is mandatory unless
  \<open>--ping\<close> is given. The source has no such exception: \<open>--ping\<close> sets \<open>input_set\<close>
  only, and without \<open>--dns\<close> and without a trailing argument the process ends in
  \<open>usage\<close>.
\<close>

theorem ping_without_domain_counterexample:
  "Opt_ping \<in> set (kinds [Long ''ping'' []]) \<and> tunnel_domain [Long ''ping'' []] [] = None
   \<and> exit_code (main example_env [Long ''ping'' []] []) = Some 0"
  by code_simp

text \<open>
  Claim C4, as the code has it: whenever startup succeeds a tunnel domain was given, by
  \<open>--dns\<close> or as the first trailing argument, and it is the domain of the DNS driver;
  without one the reactor loop is never reached, whether or not \<open>--ping\<close> is given.
\<close>

theorem domain_is_mandatory:
  "(main env opts rest = Reactor st \<longrightarrow>
      tunnel_domain opts rest \<noteq> None \<and> map_option domain (driver_dns st) = tunnel_domain opts rest)
   \<and> (tunnel_domain opts rest = None \<longrightarrow> \<not> is_reactor (main env opts rest))"
proof (intro conjI impI)
  assume m: "main env opts rest = Reactor st"
  show "tunnel_domain opts rest \<noteq> None"
    using main_reactor(1) [OF m] by (simp add: cmdline_accepted_def)
  show "map_option domain (driver_dns st) = tunnel_domain opts rest"
    using main_reactor(3) [OF m] unfolding reactor_state_def by auto
next
  assume "tunnel_domain opts rest = None"
  then show "\<not> is_reactor (main env opts rest)"
    by (simp add: is_reactor_main cmdline_accepted_def)
qed

text \<open>
  \<open>--ping\<close> with and without a trailing domain.
\<close>

theorem domain_is_mandatory_witness:
  "is_reactor (main example_env [Long ''ping'' []] [''example.org''])
   \<and> map_option domain (driver_dns (final_state (main example_env [Long ''ping'' []] [''example.org'']))) = Some ''example.org''
   \<and> tunnel_domain [Long ''ping'' []] [] = None
   \<and> \<not> is_reactor (main example_env [Long ''ping'' []] [])"
proof -
  have "is_reactor (main example_env [Long ''ping'' []] [''example.org''])"
    by code_simp
  then obtain st where m: "main example_env [Long ''ping'' []] [''example.org''] = Reactor st"
    by (cases "main example_env [Long ''ping'' []] [''example.org'']") simp_all
  have t: "tunnel_domain [Long ''ping'' []] [''example.org''] = Some ''example.org''"
    "tunnel_domain [Long ''ping'' []] [] = None"
    by code_simp+
  show ?thesis
    using domain_is_mandatory [of example_env "[Long ''ping'' []]" "[''example.org'']" st]
      domain_is_mandatory [of example_env "[Long ''ping'' []]" "[]" st]
    by (simp add: m t)
qed

text \<open>
  Claim C5: when startup succeeds, exactly one input driver is attached (the console
  driver when no input option was given) and exactly one DNS output driver; a command line
  that asks for a second input driver or a second output driver does not start. Drivers are
  counted both as globals that are set and as constructor calls in the trace.
\<close>

theorem one_input_and_one_output_driver:
  "(main env opts rest = Reactor st \<longrightarrow>
      input_drivers st = 1 \<and> length (filter input_create (trace st)) = 1
      \<and> (input_requests opts = 0 \<longrightarrow> driver_console st)
      \<and> driver_dns st \<noteq> None \<and> length (filter output_create (trace st)) = 1)
   \<and> (2 \<le> input_requests opts \<or> 2 \<le> output_requests opts \<longrightarrow>
        \<not> is_reactor (main env opts rest))"
proof (intro conjI impI)
  assume m: "main env opts rest = Reactor st"
  have r: "reactor_state env opts rest st" by (rule main_reactor(3) [OF m])
  show "input_drivers st = 1" "length (filter input_create (trace st)) = 1"
    "length (filter output_create (trace st)) = 1"
    using r by (simp_all add: reactor_state_def)
  show "driver_dns st \<noteq> None"
    using r unfolding reactor_state_def by auto
  show "driver_console st" if "input_requests opts = 0"
    using r that by (simp add: reactor_state_def)
next
  assume "2 \<le> input_requests opts \<or> 2 \<le> output_requests opts"
  then have "\<not> options_accepted opts" by (auto simp: options_accepted_def)
  then show "\<not> is_reactor (main env opts rest)"
    by (simp add: is_reactor_main cmdline_accepted_def)
qed

text \<open>
  The command line with a domain only, and one with \<open>--dns\<close> twice.
\<close>

theorem one_input_and_one_output_driver_witness:
  "is_reactor (main example_env [] [''example.org''])
   \<and> input_requests [] = 0
   \<and> input_drivers (final_state (main example_env [] [''example.org''])) = 1
   \<and> driver_console (final_state (main example_env [] [''example.org'']))
   \<and> driver_dns (final_state (main example_env [] [''example.org''])) \<noteq> None
   \<and> 2 \<le> output_requests [Long ''dns'' ''example.org'', Long ''dns'' ''example.net'']
   \<and> \<not> is_reactor (main example_env [Long ''dns'' ''example.org'', Long ''dns'' ''example.net''] [])"
proof -
  have "is_reactor (main example_env [] [''example.org''])"
    by code_simp
  then obtain st where m: "main example_env [] [''example.org''] = Reactor st"
    by (cases "main example_env [] [''example.org'']") simp_all
  have h: "2 \<le> output_requests [Long ''dns'' ''example.org'', Long ''dns'' ''example.net'']"
    by code_simp
  show ?thesis
    using one_input_and_one_output_driver [of example_env "[]" "[''example.org'']" st]
      one_input_and_one_output_driver [of example_env
        "[Long ''dns'' ''example.org'', Long ''dns'' ''example.net'']" "[]" st] h
    by (simp add: m)
qed

text \<open>
  Claim C6: without \<open>--host\<close> or \<open>--dnshost\<close> the resolver address of the DNS driver
  is the answer of \<open>dns_get_system\<close>, with one it is the value given (the last one); when
  there is no address startup fails, and with exit code 1 when nothing else is wrong with
  the command line.
\<close>

theorem resolver_address:
  "(main env opts rest = Reactor st \<longrightarrow>
      (\<exists>drv. driver_dns st = Some drv \<and> dns_host drv = resolver env opts \<and> dns_host drv \<noteq> None))
   \<and> (resolver env opts = None \<longrightarrow> \<not> is_reactor (main env opts rest))
   \<and> (cmdline_accepted opts rest \<and> resolver env opts = None \<longrightarrow>
        exit_code (main env opts rest) = Some 1)"
proof (intro conjI impI)
  assume m: "main env opts rest = Reactor st"
  show "\<exists>drv. driver_dns st = Some drv \<and> dns_host drv = resolver env opts \<and> dns_host drv \<noteq> None"
    using main_reactor(2,3) [OF m] unfolding reactor_state_def by auto
next
  assume "resolver env opts = None"
  then show "\<not> is_reactor (main env opts rest)" by (simp add: is_reactor_main)
next
  assume "cmdline_accepted opts rest \<and> resolver env opts = None"
  then show "exit_code (main env opts rest) = Some 1"
    by (simp add: exit_code_main cmdline_accepted_def)
qed

text \<open>
  A system resolver and no \<open>--host\<close>; no system resolver and \<open>--host 10.0.0.1\<close>;
  neither.
\<close>

theorem resolver_address_witness:
  "resolver example_env [] = Some ''8.8.8.8''
   \<and> map_option dns_host (driver_dns (final_state (main example_env [] [''example.org''])))
       = Some (Some ''8.8.8.8'')
   \<and> resolver no_resolver_env [Long ''host'' ''10.0.0.1''] = Some ''10.0.0.1''
   \<and> map_option dns_host (driver_dns (final_state
         (main no_resolver_env [Long ''host'' ''10.0.0.1''] [''example.org''])))
       = Some (Some ''10.0.0.1'')
   \<and> cmdline_accepted [] [''example.org''] \<and> resolver no_resolver_env [] = None
   \<and> \<not> is_reactor (main no_resolver_env [] [''example.org''])
   \<and> exit_code (main no_resolver_env [] [''example.org'']) = Some 1"
proof -
  have "is_reactor (main example_env [] [''example.org''])"
    by code_simp
  then obtain st where m: "main example_env [] [''example.org''] = Reactor st"
    by (cases "main example_env [] [''example.org'']") simp_all
  have "is_reactor (main no_resolver_env [Long ''host'' ''10.0.0.1''] [''example.org''])"
    by code_simp
  then obtain st' where
    m': "main no_resolver_env [Long ''host'' ''10.0.0.1''] [''example.org''] = Reactor st'"
    by (cases "main no_resolver_env [Long ''host'' ''10.0.0.1''] [''example.org'']") simp_all
  have r: "resolver example_env [] = Some ''8.8.8.8''"
    "resolver no_resolver_env [Long ''host'' ''10.0.0.1''] = Some ''10.0.0.1''"
    "resolver no_resolver_env [] = None" "cmdline_accepted [] [''example.org'']"
    by code_simp+
  show ?thesis
    using resolver_address [of example_env "[]" "[''example.org'']" st]
      resolver_address [of no_resolver_env "[Long ''host'' ''10.0.0.1'']" "[''example.org'']" st']
      resolver_address [of no_resolver_env "[]" "[''example.org'']" st]
    by (auto simp: m m' r)
qed

text \<open>
  Claim C7, as the specification states it: \<open>config_int("chunk")\<close> is posted exactly
  when \<open>--chunk\<close> was given. With \<open>--download f --chunk -1\<close> startup succeeds and no
  such event is posted, since \<open>atoi("-1")\<close> stored in a \<open>uint32_t\<close> is the value that
  line 408 takes for "no chunk".
\<close>

theorem chunk_minus_one_not_posted_counterexample:
  "Opt_chunk \<in> set (kinds [Long ''download'' ''f'', Long ''chunk'' ''-1''])
   \<and> is_reactor (main example_env [Long ''download'' ''f'', Long ''chunk'' ''-1''] [''example.org''])
   \<and> filter config_int_post (trace (final_state
        (main example_env [Long ''download'' ''f'', Long ''chunk'' ''-1''] [''example.org'']))) = []"
  by code_simp

text \<open>
  Claim C7, as the code has it: after a successful startup the posts on the message bus
  are, in this order, \<open>config_string("name")\<close> exactly when \<open>--name\<close> was given,
  \<open>config_string("download")\<close> exactly when \<open>--download\<close> was given,
  \<open>config_int("chunk")\<close> exactly when the last \<open>--chunk\<close> value converts to something
  other than \<open>0xFFFFFFFF\<close>, and then the start event.
\<close>

theorem configuration_posts:
  assumes "main env opts rest = Reactor st"
  shows "filter bus_post (trace st) =
     (case last_arg Opt_name opts of
        None \<Rightarrow> [] | Some v \<Rightarrow> [message_post_config_string ''name'' v])
     @ (case last_arg Opt_download opts of
        None \<Rightarrow> [] | Some v \<Rightarrow> [message_post_config_string ''download'' v])
     @ (if requested_chunk opts \<noteq> 0xFFFFFFFF
        then [message_post_config_int ''chunk'' (requested_chunk opts)] else [])
     @ [message_post_start]"
proof -
  have "filter late_effect (trace st) =
      atexit_cleanup # config_posts (last_arg Opt_name opts) (last_arg Opt_download opts)
        (requested_chunk opts) @ [message_post_start, select_set_timeout]"
    using main_reactor(3) [OF assms] by (simp add: reactor_state_def)
  then have "filter bus_post (trace st) =
      filter bus_post (atexit_cleanup # config_posts (last_arg Opt_name opts)
        (last_arg Opt_download opts) (requested_chunk opts) @ [message_post_start, select_set_timeout])"
    using bus_post_late [of "trace st"] by simp
  then show ?thesis
    by (simp add: bus_post_config_posts) (simp add: config_posts_def)
qed

text \<open>
  \<open>--name x --download f --chunk 5\<close>.
\<close>

theorem configuration_posts_witness:
  "is_reactor (main example_env
       [Long ''name'' ''x'', Long ''download'' ''f'', Long ''chunk'' ''5''] [''example.org''])
   \<and> filter bus_post (trace (final_state (main example_env
       [Long ''name'' ''x'', Long ''download'' ''f'', Long ''chunk'' ''5''] [''example.org''])))
     = [message_post_config_string ''name'' ''x'', message_post_config_string ''download'' ''f'',
        message_post_config_int ''chunk'' 5, message_post_start]"
proof -
  let ?opts = "[Long ''name'' ''x'', Long ''download'' ''f'', Long ''chunk'' ''5'']"
  have "is_reactor (main example_env ?opts [''example.org''])"
    by code_simp
  then obtain st where m: "main example_env ?opts [''example.org''] = Reactor st"
    by (cases "main example_env ?opts [''example.org'']") simp_all
  have v: "last_arg Opt_name ?opts = Some ''x''" "last_arg Opt_download ?opts = Some ''f''"
    "requested_chunk ?opts = 5"
    by code_simp+
  show ?thesis
    using configuration_posts [OF m] unfolding v by (simp add: m)
qed

text \<open>
  Claim C8: a command line whose \<open>--chunk\<close> arguments all convert to \<open>0xFFFFFFFF\<close>
  (such as \<open>--chunk -1\<close>) behaves as the same command line without \<open>--chunk\<close>: the
  outcome, with its whole trace, is the same; no \<open>config_int\<close> event is posted; and
  startup succeeds whenever the option loop accepts the command line and a domain and a
  resolver are there, with or without \<open>--download\<close>.
\<close>

theorem chunk_minus_one_is_no_chunk:
  assumes "\<forall>a\<in>set (args_of Opt_chunk opts). (of_int (atoi a) :: uint32_t) = 0xFFFFFFFF"
  shows "main env opts rest = main env (filter (\<lambda>opt. \<not> is_chunk opt) opts) rest
    \<and> filter config_int_post (trace (final_state (main env opts rest))) = []
    \<and> (options_accepted opts \<and> tunnel_domain opts rest \<noteq> None \<and> resolver env opts \<noteq> None
        \<longrightarrow> is_reactor (main env opts rest))"
proof -
  have a: "\<forall>a\<in>set (args_of Opt_chunk opts). (of_int (atoi a) :: uint32_t) = - 1"
    using assms by simp
  have "getopt_loop env opts (initial_state env)
      = getopt_loop env (filter (\<lambda>opt. \<not> is_chunk opt) opts) (initial_state env)"
    by (rule loop_chunk_filter [OF _ a]) (simp add: initial_fields)
  then have eq: "main env opts rest = main env (filter (\<lambda>opt. \<not> is_chunk opt) opts) rest"
    by (simp add: main_def)
  have rc: "requested_chunk opts = - 1"
  proof (cases "last_arg Opt_chunk opts")
    case None
    then show ?thesis by (simp add: requested_chunk_def)
  next
    case (Some b)
    then show ?thesis
      using a last_arg_in_args [OF Some] by (simp add: requested_chunk_def)
  qed
  have none: "filter config_int_post (trace (final_state (main env opts rest))) = []"
  proof (cases "main env opts rest")
    case (Exited code st)
    then show ?thesis
      using main_exited(2) [OF Exited] config_int_post_late [of "trace st"] by simp
  next
    case (Reactor st)
    have "filter late_effect (trace st) =
      atexit_cleanup # config_posts (last_arg Opt_name opts) (last_arg Opt_download opts)
        (requested_chunk opts) @ [message_post_start, select_set_timeout]"
      using main_reactor(3) [OF Reactor] by (simp add: reactor_state_def)
    then have "filter config_int_post (filter late_effect (trace st)) = []"
      by (simp add: rc config_posts_def split: option.splits)
    then show ?thesis
      using config_int_post_late [of "trace st"] by (simp add: Reactor)
  qed
  have "chunk_accepted opts" by (simp add: chunk_accepted_def rc)
  then have "options_accepted opts \<and> tunnel_domain opts rest \<noteq> None \<and> resolver env opts \<noteq> None
        \<longrightarrow> is_reactor (main env opts rest)"
    by (simp add: is_reactor_main cmdline_accepted_def)
  with eq none show ?thesis by simp
qed

text \<open>
  \<open>--chunk -1\<close> without \<open>--download\<close>.
\<close>

theorem chunk_minus_one_is_no_chunk_witness:
  "args_of Opt_chunk [Long ''chunk'' ''-1''] = [''-1'']
   \<and> (of_int (atoi ''-1'') :: uint32_t) = 0xFFFFFFFF
   \<and> Opt_download \<notin> set (kinds [Long ''chunk'' ''-1''])
   \<and> main example_env [Long ''chunk'' ''-1''] [''example.org''] = main example_env [] [''example.org'']
   \<and> is_reactor (main example_env [Long ''chunk'' ''-1''] [''example.org''])"
proof -
  have v: "args_of Opt_chunk [Long ''chunk'' ''-1''] = [''-1'']"
    "(of_int (atoi ''-1'') :: uint32_t) = 0xFFFFFFFF"
    by code_simp+
  then have h: "\<forall>a\<in>set (args_of Opt_chunk [Long ''chunk'' ''-1'']).
      (of_int (atoi a) :: uint32_t) = 0xFFFFFFFF"
    by simp
  have k: "option_kind_of ''chunk'' = Opt_chunk" by code_simp
  have o: "options_accepted [Long ''chunk'' ''-1'']"
    "tunnel_domain [Long ''chunk'' ''-1''] [''example.org''] \<noteq> None"
    "resolver example_env [Long ''chunk'' ''-1''] \<noteq> None"
    by code_simp+
  note t = chunk_minus_one_is_no_chunk [OF h, of example_env "[''example.org'']"]
  have e: "main example_env [Long ''chunk'' ''-1''] [''example.org'']
      = main example_env [] [''example.org'']"
    using t [THEN conjunct1] by (simp add: k)
  have r: "is_reactor (main example_env [Long ''chunk'' ''-1''] [''example.org''])"
    using t [THEN conjunct2, THEN conjunct2] o by simp
  show ?thesis
    using v e r by (simp add: k)
qed

text \<open>
  Claim C9: the minimum console log level never becomes negative. Provided the enum
  constant \<open>LOG_LEVEL_WARNING\<close> is not negative, the variable is not negative at the end,
  no call of \<open>log_set_min_console_level\<close> passes a negative level, and \<open>n\<close> flags
  \<open>-d\<close> leave the level at \<open>LOG_LEVEL_WARNING - n\<close> or at 0, whichever is larger;
  likewise \<open>n\<close> flags \<open>-d\<close> after options that the loop accepts lower the level
  these have reached by \<open>n\<close>, but not below 0.
\<close>

theorem log_level_never_negative:
  assumes "0 \<le> LOG_LEVEL_WARNING env"
  shows "0 \<le> final_log_level (main env opts rest)
    \<and> list_all level_nonneg (trace (final_state (main env opts rest)))
    \<and> final_log_level (main env (replicate n (Long ''d'' a)) rest)
        = max 0 (LOG_LEVEL_WARNING env - int n)
    \<and> (options_accepted opts \<longrightarrow>
        final_log_level (main env (opts @ replicate n (Long ''d'' a)) rest)
        = max 0 (final_log_level (main env opts rest) - int n))"
proof -
  have i: "nonneg_levels (initial_state env)"
    using assms by (simp add: nonneg_levels_def initial_state_def)
  have "0 \<le> min_log_level (initial_state env)"
    using assms by (simp add: initial_fields)
  then obtain st1 where l: "getopt_loop env (replicate n (Long ''d'' a)) (initial_state env) = Inr st1"
    and m: "min_log_level st1 = max 0 (min_log_level (initial_state env) - int n)"
    using loop_replicate_d by blast
  have d: "final_log_level (main env (replicate n (Long ''d'' a)) rest)
        = max 0 (LOG_LEVEL_WARNING env - int n)"
    by (simp add: final_log_level_main [OF l] m initial_fields)
  have e: "final_log_level (main env (opts @ replicate n (Long ''d'' a)) rest)
        = max 0 (final_log_level (main env opts rest) - int n)" if oa: "options_accepted opts"
  proof -
    obtain st2 where l2: "getopt_loop env opts (initial_state env) = Inr st2"
      using options_accepted_loop [OF oa] by blast
    have "nonneg_levels st2"
      using getopt_loop_nonneg [OF i, of env opts] by (simp add: l2)
    then have "0 \<le> min_log_level st2" by (simp add: nonneg_levels_def)
    then obtain st3 where l3: "getopt_loop env (replicate n (Long ''d'' a)) st2 = Inr st3"
      and m3: "min_log_level st3 = max 0 (min_log_level st2 - int n)"
      using loop_replicate_d by blast
    have "getopt_loop env (opts @ replicate n (Long ''d'' a)) (initial_state env) = Inr st3"
      by (simp add: getopt_loop_append l2 l3)
    then show ?thesis
      by (simp add: final_log_level_main l2 m3)
  qed
  show ?thesis
    using main_nonneg [OF assms, of opts rest] d e
    by (simp add: nonneg_levels_def final_log_level_def)
qed

text \<open>
  Three \<open>-d\<close> from level 1, alone and after \<open>--ping\<close>.
\<close>

theorem log_level_never_negative_witness:
  "0 \<le> LOG_LEVEL_WARNING example_env
   \<and> final_log_level (main example_env (replicate 3 (Long ''d'' [])) [''example.org'']) = 0
   \<and> list_all level_nonneg
        (trace (final_state (main example_env (replicate 3 (Long ''d'' [])) [''example.org''])))
   \<and> options_accepted [Long ''ping'' []]
   \<and> final_log_level (main example_env [Long ''ping'' []] [''example.org'']) = 2
   \<and> final_log_level (main example_env ([Long ''ping'' []] @ replicate 3 (Long ''d'' []))
        [''example.org'']) = 0"
proof -
  have h: "0 \<le> LOG_LEVEL_WARNING example_env" by (simp add: example_env_def)
  have o: "options_accepted [Long ''ping'' []]"
    and p: "final_log_level (main example_env [Long ''ping'' []] [''example.org'']) = 2"
    by code_simp+
  note t1 = log_level_never_negative [OF h, of "replicate 3 (Long ''d'' [])" "[''example.org'']" 3 "[]"]
  note t2 = log_level_never_negative [OF h, of "[Long ''ping'' []]" "[''example.org'']" 3 "[]"]
  have "final_log_level (main example_env ([Long ''ping'' []] @ replicate 3 (Long ''d'' []))
        [''example.org'']) = 0"
    using t2 [THEN conjunct2, THEN conjunct2, THEN conjunct2] o by (simp add: p)
  then show ?thesis
    using t1 h o p by (simp add: example_env_def)
qed

text \<open>
  Claim C10: a command line rejected during startup leaves without \<open>cleanup\<close>. Every
  \<open>exit\<close> inside \<open>main\<close> comes before \<open>atexit(cleanup)\<close>, so the final trace has no
  shutdown post and no destructor call; when the reactor loop is reached the hook is
  registered.
\<close>

theorem exit_at_startup_skips_cleanup:
  "(main env opts rest = Exited code st \<longrightarrow>
      \<not> atexit_registered st \<and> filter late_effect (trace st) = []
      \<and> message_post_shutdown \<notin> set (trace st)
      \<and> set (trace st) \<inter> {message_cleanup, select_group_destroy, driver_console_destroy,
            driver_command_destroy, driver_dns_destroy, driver_exec_destroy,
            driver_listener_destroy, driver_ping_destroy} = {})
   \<and> (main env opts rest = Reactor st \<longrightarrow>
      atexit_registered st \<and> atexit_cleanup \<in> set (trace st))"
proof (intro conjI impI)
  assume m: "main env opts rest = Exited code st"
  show "\<not> atexit_registered st" and f: "filter late_effect (trace st) = []"
    using main_exited(1,2) [OF m] by simp_all
  have n: "\<not> late_effect e" if "e \<in> set (trace st)" for e
    using f that by (simp add: filter_empty_conv)
  show "message_post_shutdown \<notin> set (trace st)"
    using n [of message_post_shutdown] by auto
  show "set (trace st) \<inter> {message_cleanup, select_group_destroy, driver_console_destroy,
            driver_command_destroy, driver_dns_destroy, driver_exec_destroy,
            driver_listener_destroy, driver_ping_destroy} = {}"
    using n by fastforce
next
  assume m: "main env opts rest = Reactor st"
  have r: "reactor_state env opts rest st" by (rule main_reactor(3) [OF m])
  then show "atexit_registered st" by (simp add: reactor_state_def)
  have "atexit_cleanup \<in> set (filter late_effect (trace st))"
    using r by (simp add: reactor_state_def)
  then show "atexit_cleanup \<in> set (trace st)" by simp
qed

text \<open>
  \<open>--chunk 5\<close> without \<open>--download\<close>, and a domain only.
\<close>

theorem exit_at_startup_skips_cleanup_witness:
  "exit_code (main example_env [Long ''chunk'' ''5''] [''example.org'']) = Some 1
   \<and> \<not> atexit_registered (final_state (main example_env [Long ''chunk'' ''5''] [''example.org'']))
   \<and> filter late_effect
        (trace (final_state (main example_env [Long ''chunk'' ''5''] [''example.org'']))) = []
   \<and> is_reactor (main example_env [] [''example.org''])
   \<and> atexit_registered (final_state (main example_env [] [''example.org'']))
   \<and> atexit_cleanup \<in> set (trace (final_state (main example_env [] [''example.org''])))"
proof -
  have "exit_code (main example_env [Long ''chunk'' ''5''] [''example.org'']) = Some 1"
    by code_simp
  then obtain st where m: "main example_env [Long ''chunk'' ''5''] [''example.org''] = Exited 1 st"
    by (cases "main example_env [Long ''chunk'' ''5''] [''example.org'']") simp_all
  have "is_reactor (main example_env [] [''example.org''])"
    by code_simp
  then obtain st' where m': "main example_env [] [''example.org''] = Reactor st'"
    by (cases "main example_env [] [''example.org'']") simp_all
  show ?thesis
    using exit_at_startup_skips_cleanup [of example_env "[Long ''chunk'' ''5'']" "[''example.org'']" 1 st]
      exit_at_startup_skips_cleanup [of example_env "[]" "[''example.org'']" 0 st']
    by (simp add: m m')
qed

end
